theory Spec2Isabelle
  imports Main "HOL-Library.AList"
begin

section \<open>Values, results and the agent context (types.ts)\<close>

text \<open>
  JavaScript values that flow through the agent as \<open>any\<close>: tool inputs, action
  payloads, hook return values, result data. \<open>JUndefined\<close> is the value
  \<open>undefined\<close>. Numbers are the integers (the tool schemas declare every coordinate
  and count as integer); objects keep their keys in insertion order.
\<close>

datatype jval =
    JUndefined
  | JNull
  | JBool bool
  | JNum int
  | JStr string
  | JArr "jval list"
  | JObj "(string \<times> jval) list"

text \<open>
  A thrown value. The code only ever observes one through \<open>String(error)\<close>, so an
  exception is identified with that rendering.
\<close>

datatype exn = Exn string

fun String_of_exn :: "exn \<Rightarrow> string" where
  "String_of_exn (Exn s) = s"

text \<open>Property read \<open>v.k\<close>: a TypeError on \<open>null\<close> and \<open>undefined\<close>, the stored
  value on an object that has the key, \<open>undefined\<close> otherwise.\<close>

fun get_prop :: "jval \<Rightarrow> string \<Rightarrow> exn + jval" where
  "get_prop JUndefined k =
     Inl (Exn (''TypeError: Cannot read properties of undefined (reading '' @
               [CHR 0x27] @ k @ [CHR 0x27] @ '')''))"
| "get_prop JNull k =
     Inl (Exn (''TypeError: Cannot read properties of null (reading '' @
               [CHR 0x27] @ k @ [CHR 0x27] @ '')''))"
| "get_prop (JObj kvs) k = Inr (case map_of kvs k of None \<Rightarrow> JUndefined | Some v \<Rightarrow> v)"
| "get_prop v k = Inr JUndefined"

text \<open>Truthiness, as used by \<open>if (v)\<close>, \<open>a && b\<close> and \<open>a || b\<close>.\<close>

fun truthy :: "jval \<Rightarrow> bool" where
  "truthy JUndefined = False"
| "truthy JNull = False"
| "truthy (JBool b) = b"
| "truthy (JNum n) = (n \<noteq> 0)"
| "truthy (JStr s) = (s \<noteq> [])"
| "truthy (JArr vs) = True"
| "truthy (JObj kvs) = True"

text \<open>The nullish coalescing operator \<open>a ?? b\<close>.\<close>

fun nullish :: "jval \<Rightarrow> jval \<Rightarrow> jval" where
  "nullish JUndefined d = d"
| "nullish JNull d = d"
| "nullish v d = v"

text \<open>
  A value passed where the code expects a number: \<open>None\<close> stands for \<open>undefined\<close>
  (every comparison with it is false). A value that is neither a number nor absent is
  outside the tool schema and is read as absent.
\<close>

fun as_number :: "jval \<Rightarrow> int option" where
  "as_number (JNum n) = Some n"
| "as_number v = None"

text \<open>Decimal rendering of a number inside a template string.\<close>

fun show_nat :: "nat \<Rightarrow> string" where
  "show_nat n =
     (if n < 10 then [''0123456789'' ! n]
      else show_nat (n div 10) @ [''0123456789'' ! (n mod 10)])"

declare show_nat.simps [simp del]

definition show_int :: "int \<Rightarrow> string" where
  "show_int i = (if i < 0 then ''-'' @ show_nat (nat (- i)) else show_nat (nat i))"

fun show_number :: "int option \<Rightarrow> string" where
  "show_number None = ''undefined''"
| "show_number (Some i) = show_int i"

datatype ActionType = SCREENSHOT | MOUSE_MOVE | CLICK | DOUBLE_CLICK | TYPE_TEXT | KEY | SCROLL


record ScreenRegion =
  region_x :: int
  region_y :: int
  region_width :: int
  region_height :: int

text \<open>\<open>error\<close> and \<open>data\<close> are optional fields: \<open>None\<close> and \<open>JUndefined\<close> when
  the object literal does not set them.\<close>

record ActionResult =
  success :: bool
  actionType :: ActionType
  error :: "string option"
  data :: jval

type_synonym state_map = "(string \<times> jval) list"

record AgentContext =
  state :: state_map
  iteration :: nat
  actionHistory :: "ActionResult list"
  lastScreenshot :: "string option"
  lastScreenshotText :: "string option"

definition new_AgentContext :: AgentContext where
  "new_AgentContext =
     \<lparr>state = [], iteration = 0, actionHistory = [], lastScreenshot = None,
      lastScreenshotText = None\<rparr>"

text \<open>
  Hooks, tool functions, predicates and handlers are callbacks supplied by the caller
  (\<open>HookFunction = (context, ...args) => any\<close>). A callback reads the context and its
  arguments, and either returns a value or throws. The model takes the contract under
  which callbacks are written: of the shared context they write the state map
  (\<open>context.state\<close>), and they read the rest. So a callback is a function of the
  context and the arguments that gives its outcome and the state map it leaves
  behind, also when it throws. A tool function is called on its arguments alone; it
  reaches the state map through the agent (\<open>agent.state\<close>).
\<close>

datatype arg = Val jval | Res ActionResult

type_synonym callback = "AgentContext \<Rightarrow> arg list \<Rightarrow> (exn + jval) \<times> state_map"

section \<open>The world: mutable state and instrumentation\<close>

datatype robot_call =
    MoveMouse "int option" "int option"
  | MouseClick jval
  | TypeString jval
  | KeyTap jval
  | ScrollMouse int "int option"

datatype hook_point =
    BeforeScreenshot | AfterScreenshot | BeforeAction | AfterAction
  | OnToolCall string | OnIterationStart | OnIterationEnd

text \<open>
  Every call that leaves the agent's own code is recorded, in order, in a trace: a hook
  of some lifecycle point, a custom tool, the predicate or the handler of the i-th
  conditional handler of an action kind, \<open>console.error\<close>, a robotjs operation, a
  screen capture, a request to the reasoning service. \<open>LoopPass i\<close> marks the start
  of pass \<open>i\<close> of the loop of \<open>run\<close>.
\<close>

datatype event =
    HookCalled hook_point
  | CustomToolCalled string
  | ConditionCalled string nat
  | HandlerCalled string nat
  | ConsoleError exn
  | RobotCalled robot_call
  | ScreenCaptured
  | ServiceCalled
  | LoopPass nat

datatype block =
    ImageBlock jval
  | TextBlock string
  | ToolUseBlock string string jval
  | ToolResultBlock string "block list"

record message =
  role :: string
  content :: "block list"

text \<open>
  The mutable fields of the agent and of its executor (\<open>this.context\<close>,
  \<open>this.messages\<close>, \<open>this.lastActionTime\<close>), the clock read by \<open>Date.now()\<close>
  (milliseconds; a timer of d milliseconds advances it by d), and the trace.
\<close>

record world =
  ctx :: AgentContext
  messages :: "message list"
  lastActionTime :: int
  clock :: int
  trace :: "event list"

text \<open>A computation that returns a value or throws, and changes the world.\<close>

type_synonym 'a comp = "world \<Rightarrow> (exn + 'a) \<times> world"

definition returnE :: "'a \<Rightarrow> 'a comp" where
  "returnE a = (\<lambda>w. (Inr a, w))"

definition bindE :: "'a comp \<Rightarrow> ('a \<Rightarrow> 'b comp) \<Rightarrow> 'b comp" where
  "bindE m f = (\<lambda>w. case m w of (Inl e, w') \<Rightarrow> (Inl e, w') | (Inr a, w') \<Rightarrow> f a w')"

definition log_event :: "event \<Rightarrow> world \<Rightarrow> world" where
  "log_event ev w = w\<lparr>trace := trace w @ [ev]\<rparr>"

text \<open>Calling a callback: the call is recorded, the callback sees the current context
  and leaves its state map behind, whether it returns or throws.\<close>

definition call :: "event \<Rightarrow> callback \<Rightarrow> arg list \<Rightarrow> jval comp" where
  "call ev f args w =
     (case f (ctx w) args of
        (r, st) \<Rightarrow> (r, (log_event ev w)\<lparr>ctx := (ctx w)\<lparr>state := st\<rparr>\<rparr>))"

text \<open>\<open>xs.forEach(f)\<close> and \<open>for (const x of xs)\<close>: the body runs on each element in
  order; an exception leaves the loop.\<close>

fun forEach :: "'a list \<Rightarrow> ('a \<Rightarrow> unit comp) \<Rightarrow> unit comp" where
  "forEach [] f w = (Inr (), w)"
| "forEach (x # xs) f w =
     (case f x w of (Inl e, w') \<Rightarrow> (Inl e, w') | (Inr u, w') \<Rightarrow> forEach xs f w')"

section \<open>HookRegistry (hooks.ts)\<close>

record HookRegistry =
  beforeScreenshot :: "callback list"
  afterScreenshot :: "callback list"
  beforeAction :: "callback list"
  afterAction :: "callback list"
  onToolCall :: "(string \<times> callback list) list"
  onIterationStart :: "callback list"
  onIterationEnd :: "callback list"

definition ignore :: "'a comp \<Rightarrow> unit comp" where
  "ignore m = bindE m (\<lambda>r. returnE ())"

definition triggerBeforeScreenshot :: "HookRegistry \<Rightarrow> unit comp" where
  "triggerBeforeScreenshot this =
     forEach (beforeScreenshot this) (\<lambda>hook. ignore (call (HookCalled BeforeScreenshot) hook []))"

definition triggerAfterScreenshot :: "HookRegistry \<Rightarrow> string \<Rightarrow> unit comp" where
  "triggerAfterScreenshot this imageB64 =
     forEach (afterScreenshot this)
       (\<lambda>hook. ignore (call (HookCalled AfterScreenshot) hook [Val (JStr imageB64)]))"

text \<open>
  The mutation chains keep the candidate in a local variable that the loop body
  assigns (\<open>let modifiedAction = action\<close>); \<open>chain\<close> is that loop, the variable being
  threaded through it. A hook's result replaces the candidate unless it is
  \<open>undefined\<close>.
\<close>

fun chain :: "callback list \<Rightarrow> (callback \<Rightarrow> jval \<Rightarrow> jval comp) \<Rightarrow> jval \<Rightarrow> jval comp" where
  "chain [] invoke modified w = (Inr modified, w)"
| "chain (hook # hooks) invoke modified w =
     (case invoke hook modified w of
        (Inl e, w') \<Rightarrow> (Inl e, w')
      | (Inr result, w') \<Rightarrow>
          chain hooks invoke (if result \<noteq> JUndefined then result else modified) w')"

definition triggerBeforeAction :: "HookRegistry \<Rightarrow> jval \<Rightarrow> jval comp" where
  "triggerBeforeAction this action =
     chain (beforeAction this)
       (\<lambda>hook modifiedAction. call (HookCalled BeforeAction) hook [Val modifiedAction]) action"

definition triggerAfterAction :: "HookRegistry \<Rightarrow> jval \<Rightarrow> ActionResult \<Rightarrow> unit comp" where
  "triggerAfterAction this action result =
     forEach (afterAction this)
       (\<lambda>hook. ignore (call (HookCalled AfterAction) hook [Val action, Res result]))"

definition triggerOnToolCall :: "HookRegistry \<Rightarrow> string \<Rightarrow> jval \<Rightarrow> jval comp" where
  "triggerOnToolCall this toolName args =
     bindE
       (case map_of (onToolCall this) toolName of
          None \<Rightarrow> returnE args
        | Some hooks \<Rightarrow>
            chain hooks
              (\<lambda>hook modifiedArgs.
                 call (HookCalled (OnToolCall toolName)) hook [Val modifiedArgs]) args)
       (\<lambda>modifiedArgs.
          case map_of (onToolCall this) ''*'' of
            None \<Rightarrow> returnE modifiedArgs
          | Some hooks \<Rightarrow>
              chain hooks
                (\<lambda>hook modifiedArgs.
                   call (HookCalled (OnToolCall ''*'')) hook
                     [Val (JStr toolName), Val modifiedArgs]) modifiedArgs)"

definition triggerOnIterationStart :: "HookRegistry \<Rightarrow> nat \<Rightarrow> unit comp" where
  "triggerOnIterationStart this i =
     forEach (onIterationStart this)
       (\<lambda>hook. ignore (call (HookCalled OnIterationStart) hook [Val (JNum (int i))]))"

definition triggerOnIterationEnd :: "HookRegistry \<Rightarrow> nat \<Rightarrow> unit comp" where
  "triggerOnIterationEnd this i =
     forEach (onIterationEnd this)
       (\<lambda>hook. ignore (call (HookCalled OnIterationEnd) hook [Val (JNum (int i))]))"

text \<open>Registration appends: the lists are in registration order.\<close>

definition registerBeforeAction :: "callback \<Rightarrow> HookRegistry \<Rightarrow> HookRegistry" where
  "registerBeforeAction func this = this\<lparr>beforeAction := beforeAction this @ [func]\<rparr>"

definition registerAfterAction :: "callback \<Rightarrow> HookRegistry \<Rightarrow> HookRegistry" where
  "registerAfterAction func this = this\<lparr>afterAction := afterAction this @ [func]\<rparr>"

definition registerOnToolCall :: "string option \<Rightarrow> callback \<Rightarrow> HookRegistry \<Rightarrow> HookRegistry" where
  "registerOnToolCall toolName func this =
     (let key = (case toolName of None \<Rightarrow> ''*'' | Some n \<Rightarrow> if n = [] then ''*'' else n);
          old = (case map_of (onToolCall this) key of None \<Rightarrow> [] | Some fs \<Rightarrow> fs)
      in this\<lparr>onToolCall := AList.update key (old @ [func]) (onToolCall this)\<rparr>)"

section \<open>WorkflowEngine (workflow.ts)\<close>

record ToolDefinition =
  tool_name :: string
  tool_description :: string
  tool_inputSchema :: jval
  tool_function :: callback

text \<open>A JavaScript \<open>Map\<close> is an association list: \<open>set\<close> on a new key appends,
  \<open>set\<close> on an old key replaces the value in place (\<open>AList.update\<close>).\<close>

record WorkflowEngine =
  customTools :: "(string \<times> ToolDefinition) list"
  conditionalHandlers :: "(string \<times> (callback \<times> callback) list) list"

definition registerTool :: "string \<Rightarrow> string \<Rightarrow> callback \<Rightarrow> WorkflowEngine \<Rightarrow> WorkflowEngine" where
  "registerTool n description func this =
     this\<lparr>customTools :=
       AList.update n
         \<lparr>tool_name = n, tool_description = description,
          tool_inputSchema = JObj [(''type'', JStr ''object''), (''properties'', JObj [])],
          tool_function = func\<rparr>
         (customTools this)\<rparr>"

definition registerConditionalHandler ::
  "string \<Rightarrow> callback \<Rightarrow> callback \<Rightarrow> WorkflowEngine \<Rightarrow> WorkflowEngine" where
  "registerConditionalHandler actionKind condition handler this =
     (let old = (case map_of (conditionalHandlers this) actionKind of
                   None \<Rightarrow> [] | Some hs \<Rightarrow> hs)
      in this\<lparr>conditionalHandlers :=
           AList.update actionKind (old @ [(condition, handler)]) (conditionalHandlers this)\<rparr>)"

definition throw :: "exn \<Rightarrow> 'a comp" where
  "throw e = (\<lambda>w. (Inl e, w))"

definition tryCatch :: "'a comp \<Rightarrow> (exn \<Rightarrow> 'a comp) \<Rightarrow> 'a comp" where
  "tryCatch m h = (\<lambda>w. case m w of (Inl e, w') \<Rightarrow> h e w' | (Inr a, w') \<Rightarrow> (Inr a, w'))"

definition WorkflowEngine_executeTool :: "WorkflowEngine \<Rightarrow> string \<Rightarrow> jval \<Rightarrow> jval comp" where
  "WorkflowEngine_executeTool this toolName args =
     (case map_of (customTools this) toolName of
        None \<Rightarrow>
          throw (Exn (''Error: Tool '' @ [CHR 0x27] @ toolName @ [CHR 0x27] @ '' not found''))
      | Some tool \<Rightarrow> call (CustomToolCalled toolName) (tool_function tool) [Val args])"

definition console_error :: "exn \<Rightarrow> unit comp" where
  "console_error e = (\<lambda>w. (Inr (), log_event (ConsoleError e) w))"

text \<open>The body of the loop over the handlers of one action kind, the \<open>try\<close> and its
  \<open>catch\<close>; \<open>i\<close> is the position of the pair in registration order.\<close>

definition evaluate_handler :: "string \<Rightarrow> jval \<Rightarrow> nat \<times> callback \<times> callback \<Rightarrow> unit comp" where
  "evaluate_handler actionKind action =
     (\<lambda>(i, condition, handler).
        tryCatch
          (bindE (call (ConditionCalled actionKind i) condition [Val action])
             (\<lambda>c. if truthy c
                   then ignore (call (HandlerCalled actionKind i) handler [Val action])
                   else returnE ()))
          (\<lambda>error. console_error error))"

definition checkConditionalHandlers :: "WorkflowEngine \<Rightarrow> string \<Rightarrow> jval \<Rightarrow> unit comp" where
  "checkConditionalHandlers this actionKind action =
     (case map_of (conditionalHandlers this) actionKind of
        None \<Rightarrow> returnE ()
      | Some handlers \<Rightarrow> forEach (enumerate 0 handlers) (evaluate_handler actionKind action))"

definition hasTool :: "WorkflowEngine \<Rightarrow> string \<Rightarrow> bool" where
  "hasTool this toolName = (map_of (customTools this) toolName \<noteq> None)"

definition getToolSchemas :: "WorkflowEngine \<Rightarrow> (string \<times> string \<times> jval) list" where
  "getToolSchemas this =
     map (\<lambda>(k, tool). (tool_name tool, tool_description tool, tool_inputSchema tool))
       (customTools this)"

section \<open>ActionExecutor (actions.ts)\<close>

text \<open>
  \<open>robot\<close> is the behaviour of the robotjs module: for each operation, whether it
  returns (\<open>None\<close>) or throws. The two delays are kept in milliseconds, the unit in
  which the code uses them (\<open>safetyDelay * 1000\<close>).
\<close>

record ActionExecutor =
  allowedRegion :: "ScreenRegion option"
  safetyDelay :: int
  confirmationMode :: string
  rateLimitDelay :: int
  robot :: "robot_call \<Rightarrow> exn option"

text \<open>\<open>a <= b\<close> on numbers, false when either side is \<open>undefined\<close>.\<close>

fun js_le :: "int option \<Rightarrow> int option \<Rightarrow> bool" where
  "js_le (Some a) (Some b) = (a \<le> b)"
| "js_le a b = False"

definition checkAllowed :: "ActionExecutor \<Rightarrow> int option \<Rightarrow> int option \<Rightarrow> bool" where
  "checkAllowed this x y =
     (case allowedRegion this of
        None \<Rightarrow> True
      | Some r \<Rightarrow>
          js_le (Some (region_x r)) x \<and>
          js_le x (Some (region_x r + region_width r)) \<and>
          js_le (Some (region_y r)) y \<and>
          js_le y (Some (region_y r + region_height r)))"

definition sleep :: "int \<Rightarrow> world \<Rightarrow> world" where
  "sleep ms w = w\<lparr>clock := clock w + max 0 ms\<rparr>"

definition rateLimit :: "ActionExecutor \<Rightarrow> world \<Rightarrow> world" where
  "rateLimit this w =
     (let elapsed = clock w - lastActionTime w;
          w1 = (if elapsed < rateLimitDelay this
                then sleep (rateLimitDelay this - elapsed) w else w)
      in w1\<lparr>lastActionTime := clock w1\<rparr>)"

definition robot_op :: "ActionExecutor \<Rightarrow> robot_call \<Rightarrow> unit comp" where
  "robot_op this c =
     (\<lambda>w. (case robot this c of None \<Rightarrow> Inr () | Some e \<Rightarrow> Inl e,
           log_event (RobotCalled c) w))"

definition dryRun_data :: jval where
  "dryRun_data = JObj [(''dryRun'', JBool True)]"

definition executeWithSafety ::
  "ActionExecutor \<Rightarrow> jval comp \<Rightarrow> ActionType \<Rightarrow> world \<Rightarrow> ActionResult \<times> world" where
  "executeWithSafety this actionFunc t w =
     (if confirmationMode this = ''dry-run''
      then (\<lparr>success = True, actionType = t, error = None, data = dryRun_data\<rparr>, w)
      else
        (case actionFunc (rateLimit this w) of
           (Inr result, w') \<Rightarrow>
             (\<lparr>success = True, actionType = t, error = None, data = result\<rparr>,
              sleep (safetyDelay this) w')
         | (Inl e, w') \<Rightarrow>
             (\<lparr>success = False, actionType = t, error = Some (String_of_exn e),
               data = JUndefined\<rparr>, w')))"

definition outside_region :: "ActionType \<Rightarrow> int option \<Rightarrow> int option \<Rightarrow> ActionResult" where
  "outside_region t x y =
     \<lparr>success = False, actionType = t,
      error = Some (''Coordinates ('' @ show_number x @ '', '' @ show_number y @
                    '') outside allowed region''),
      data = JUndefined\<rparr>"

fun jnum :: "int option \<Rightarrow> jval" where
  "jnum None = JUndefined"
| "jnum (Some n) = JNum n"

text \<open>The number of passes of \<open>for (let i = 0; i < n; i++)\<close>.\<close>

fun count_of :: "int option \<Rightarrow> nat" where
  "count_of None = 0"
| "count_of (Some n) = nat n"

text \<open>The \<open>duration\<close> parameter of \<open>mouseMove\<close> and the \<open>interval\<close> parameter of
  \<open>typeText\<close> are accepted and never used by the code; the model leaves them out.\<close>

text \<open>The arrow functions that the operations hand to \<open>executeWithSafety\<close>.\<close>

definition mouseMove_func :: "ActionExecutor \<Rightarrow> int option \<Rightarrow> int option \<Rightarrow> jval comp" where
  "mouseMove_func this x y =
     bindE (robot_op this (MoveMouse x y))
       (\<lambda>u. returnE (JObj [(''x'', jnum x), (''y'', jnum y)]))"

definition mouseMove ::
  "ActionExecutor \<Rightarrow> int option \<Rightarrow> int option \<Rightarrow> world \<Rightarrow> ActionResult \<times> world" where
  "mouseMove this x y w =
     (if \<not> checkAllowed this x y then (outside_region MOUSE_MOVE x y, w)
      else executeWithSafety this (mouseMove_func this x y) MOUSE_MOVE w)"

definition click_func ::
  "ActionExecutor \<Rightarrow> int option \<Rightarrow> int option \<Rightarrow> jval \<Rightarrow> int option \<Rightarrow> jval comp" where
  "click_func this x y button clicks =
     bindE (robot_op this (MoveMouse x y))
       (\<lambda>u. bindE (forEach [0..<count_of clicks] (\<lambda>i. robot_op this (MouseClick button)))
          (\<lambda>u. returnE (JObj [(''x'', jnum x), (''y'', jnum y),
                               (''button'', button), (''clicks'', jnum clicks)])))"

definition click ::
  "ActionExecutor \<Rightarrow> int option \<Rightarrow> int option \<Rightarrow> jval \<Rightarrow> int option \<Rightarrow> world
     \<Rightarrow> ActionResult \<times> world"
  where
  "click this x y button clicks w =
     (if \<not> checkAllowed this x y then (outside_region CLICK x y, w)
      else executeWithSafety this (click_func this x y button clicks) CLICK w)"

definition doubleClick ::
  "ActionExecutor \<Rightarrow> int option \<Rightarrow> int option \<Rightarrow> world \<Rightarrow> ActionResult \<times> world" where
  "doubleClick this x y w = click this x y (JStr ''left'') (Some 2) w"

text \<open>\<open>text.length\<close>: the length of a string, a TypeError on \<open>null\<close> and
  \<open>undefined\<close>.\<close>

fun length_prop :: "jval \<Rightarrow> exn + jval" where
  "length_prop (JStr s) = Inr (JNum (int (length s)))"
| "length_prop (JArr vs) = Inr (JNum (int (length vs)))"
| "length_prop v = get_prop v ''length''"

definition typeText :: "ActionExecutor \<Rightarrow> jval \<Rightarrow> world \<Rightarrow> ActionResult \<times> world" where
  "typeText this text w =
     executeWithSafety this
       (bindE (robot_op this (TypeString text))
          (\<lambda>u. bindE (\<lambda>w. (length_prop text, w))
             (\<lambda>len. returnE (JObj [(''text'', text), (''length'', len)]))))
       TYPE_TEXT w"

definition pressKey :: "ActionExecutor \<Rightarrow> jval \<Rightarrow> world \<Rightarrow> ActionResult \<times> world" where
  "pressKey this k w =
     executeWithSafety this
       (bindE (robot_op this (KeyTap k)) (\<lambda>u. returnE (JObj [(''key'', k)])))
       KEY w"

definition scroll_func ::
  "ActionExecutor \<Rightarrow> jval \<Rightarrow> int option \<Rightarrow> int option \<Rightarrow> int option \<Rightarrow> jval comp" where
  "scroll_func this direction amount x y =
     bindE (if x \<noteq> None \<and> y \<noteq> None then robot_op this (MoveMouse x y) else returnE ())
       (\<lambda>u. let scrollAmount =
                   (if direction = JStr ''up'' \<or> direction = JStr ''left''
                    then map_option uminus amount else amount)
             in bindE (robot_op this (ScrollMouse 0 scrollAmount))
                  (\<lambda>u. returnE (JObj [(''direction'', direction), (''amount'', jnum amount)])))"

definition scroll ::
  "ActionExecutor \<Rightarrow> jval \<Rightarrow> int option \<Rightarrow> int option \<Rightarrow> int option \<Rightarrow> world
     \<Rightarrow> ActionResult \<times> world"
  where
  "scroll this direction amount x y w =
     (if x \<noteq> None \<and> y \<noteq> None \<and> \<not> checkAllowed this x y
      then (outside_region SCROLL x y, w)
      else executeWithSafety this (scroll_func this direction amount x y) SCROLL w)"

section \<open>ComputerUseAgent, the agent class\<close>

record response =
  stop_reason :: string
  response_content :: "block list"

record request =
  req_model :: string
  req_max_tokens :: int
  req_system :: string
  req_messages :: "message list"
  req_tools :: "(string \<times> string \<times> jval) list"

text \<open>
  \<open>client\<close> is the reasoning service and \<open>screen\<close> the screen capture: what the
  n-th request, or the n-th capture, returns or throws. \<open>JSON_stringify\<close> is the
  rendering of a value by \<open>JSON.stringify\<close> inside a template string.
\<close>

record ComputerUseAgent =
  client :: "nat \<Rightarrow> request \<Rightarrow> exn + response"
  screen :: "nat \<Rightarrow> exn + string"
  executor :: ActionExecutor
  workflow :: WorkflowEngine
  hooks :: HookRegistry
  model :: string
  maxTokens :: int
  JSON_stringify :: "jval \<Rightarrow> string"

text \<open>What \<open>run\<close> returns: the object literal of the normal exit has \<open>success\<close>,
  \<open>iterations\<close>, \<open>state\<close> and \<open>actionHistory\<close>; the one of the \<open>catch\<close> has
  \<open>success\<close>, \<open>error\<close>, \<open>iteration\<close> and \<open>state\<close>.\<close>

record RunResult =
  r_success :: bool
  r_error :: "string option"
  r_iteration :: "nat option"
  r_iterations :: "nat option"
  r_state :: state_map
  r_actionHistory :: "ActionResult list option"

definition schema :: "(string \<times> jval) list \<Rightarrow> string list \<Rightarrow> jval" where
  "schema props required =
     JObj ([(''type'', JStr ''object''), (''properties'', JObj props)] @
           (if required = [] then [] else [(''required'', JArr (map JStr required))]))"

definition ty :: "string \<Rightarrow> jval" where
  "ty t = JObj [(''type'', JStr t)]"

definition getDefaultTools :: "(string \<times> string \<times> jval) list" where
  "getDefaultTools =
     [(''screenshot'', ''Take a screenshot of the current screen or a specific region'',
         schema [(''region'', JObj [(''type'', JStr ''object''),
                   (''description'', JStr ''Optional region to capture''),
                   (''properties'', JObj [(''x'', ty ''integer''), (''y'', ty ''integer''),
                      (''width'', ty ''integer''), (''height'', ty ''integer'')])])] []),
      (''mouse_move'', ''Move the mouse cursor to specific coordinates'',
         schema [(''x'', ty ''integer''), (''y'', ty ''integer''), (''duration'', ty ''number'')]
           [''x'', ''y'']),
      (''click'', ''Click at specific coordinates'',
         schema [(''x'', ty ''integer''), (''y'', ty ''integer''), (''button'', ty ''string''),
                 (''clicks'', ty ''integer'')] [''x'', ''y'']),
      (''type'', ''Type text using the keyboard'',
         schema [(''text'', ty ''string''), (''interval'', ty ''number'')] [''text'']),
      (''key'', ''Press a keyboard key'', schema [(''key'', ty ''string'')] [''key'']),
      (''scroll'', ''Scroll in a direction'',
         schema [(''direction'', ty ''string''), (''amount'', ty ''integer''),
                 (''x'', ty ''integer''), (''y'', ty ''integer'')] [''direction''])]"

definition buildTools :: "ComputerUseAgent \<Rightarrow> (string \<times> string \<times> jval) list" where
  "buildTools this = getDefaultTools @ getToolSchemas (workflow this)"

definition captureBase64 :: "ComputerUseAgent \<Rightarrow> string comp" where
  "captureBase64 this =
     (\<lambda>w. (screen this (count_list (trace w) ScreenCaptured), log_event ScreenCaptured w))"

definition takeScreenshot :: "ComputerUseAgent \<Rightarrow> string comp" where
  "takeScreenshot this =
     bindE (triggerBeforeScreenshot (hooks this))
       (\<lambda>u. bindE (captureBase64 this)
          (\<lambda>imageB64.
             bindE (\<lambda>w. (Inr (), w\<lparr>ctx := (ctx w)\<lparr>lastScreenshot := Some imageB64\<rparr>\<rparr>))
               (\<lambda>u. bindE (triggerAfterScreenshot (hooks this) imageB64)
                  (\<lambda>u. returnE imageB64))))"

definition read_prop :: "jval \<Rightarrow> string \<Rightarrow> jval comp" where
  "read_prop v k = (\<lambda>w. (get_prop v k, w))"

text \<open>
  The five executor cases of the \<open>switch\<close> have one shape: the before-action chain
  on the modified input, the executor operation on the fields of the chain's result,
  the after-action hooks and the conditional handlers of the tool name, both on the
  modified input. \<open>builtin_action\<close> is that shape; \<open>operation\<close> reads the fields and
  calls the executor.
\<close>

definition builtin_action ::
  "ComputerUseAgent \<Rightarrow> string \<Rightarrow> jval \<Rightarrow> (jval \<Rightarrow> ActionResult comp) \<Rightarrow> ActionResult comp" where
  "builtin_action this toolName modifiedInput operation =
     bindE (triggerBeforeAction (hooks this) modifiedInput)
       (\<lambda>action. bindE (operation action)
          (\<lambda>result. bindE (triggerAfterAction (hooks this) modifiedInput result)
             (\<lambda>u. bindE (checkConditionalHandlers (workflow this) toolName modifiedInput)
                (\<lambda>u. returnE result))))"

definition lift :: "(world \<Rightarrow> 'a \<times> world) \<Rightarrow> 'a comp" where
  "lift f = (\<lambda>w. case f w of (a, w') \<Rightarrow> (Inr a, w'))"

definition executeTool :: "ComputerUseAgent \<Rightarrow> string \<Rightarrow> jval \<Rightarrow> ActionResult comp" where
  "executeTool this toolName toolInput =
     bindE (triggerOnToolCall (hooks this) toolName toolInput)
       (\<lambda>modifiedInput.
          if hasTool (workflow this) toolName then
            tryCatch
              (bindE (WorkflowEngine_executeTool (workflow this) toolName modifiedInput)
                 (\<lambda>result. returnE \<lparr>success = True, actionType = SCREENSHOT, error = None,
                                     data = JObj [(''result'', result)]\<rparr>))
              (\<lambda>error. returnE \<lparr>success = False, actionType = SCREENSHOT,
                                 error = Some (String_of_exn error), data = JUndefined\<rparr>)
          else if toolName = ''screenshot'' then
            bindE (takeScreenshot this)
              (\<lambda>imageB64. returnE \<lparr>success = True, actionType = SCREENSHOT, error = None,
                                    data = JObj [(''image'', JStr imageB64)]\<rparr>)
          else if toolName = ''mouse_move'' then
            builtin_action this ''mouse_move'' modifiedInput
              (\<lambda>action1. bindE (read_prop action1 ''x'')
                 (\<lambda>x. bindE (read_prop action1 ''y'')
                    (\<lambda>y. lift (mouseMove (executor this) (as_number x) (as_number y)))))
          else if toolName = ''click'' then
            builtin_action this ''click'' modifiedInput
              (\<lambda>action2. bindE (read_prop action2 ''x'')
                 (\<lambda>x. bindE (read_prop action2 ''y'')
                    (\<lambda>y. bindE (read_prop action2 ''button'')
                       (\<lambda>button. bindE (read_prop action2 ''clicks'')
                          (\<lambda>clicks.
                             lift (click (executor this) (as_number x) (as_number y)
                                     (nullish button (JStr ''left''))
                                     (as_number (nullish clicks (JNum 1)))))))))
          else if toolName = ''type'' then
            builtin_action this ''type'' modifiedInput
              (\<lambda>action3. bindE (read_prop action3 ''text'')
                 (\<lambda>text. lift (typeText (executor this) text)))
          else if toolName = ''key'' then
            builtin_action this ''key'' modifiedInput
              (\<lambda>action4. bindE (read_prop action4 ''key'')
                 (\<lambda>k. lift (pressKey (executor this) k)))
          else if toolName = ''scroll'' then
            builtin_action this ''scroll'' modifiedInput
              (\<lambda>action5. bindE (read_prop action5 ''direction'')
                 (\<lambda>direction. bindE (read_prop action5 ''amount'')
                    (\<lambda>amount. bindE (read_prop action5 ''x'')
                       (\<lambda>x. bindE (read_prop action5 ''y'')
                          (\<lambda>y.
                             lift (scroll (executor this) direction
                                     (as_number (nullish amount (JNum 3)))
                                     (as_number x) (as_number y)))))))
          else
            returnE \<lparr>success = False, actionType = SCREENSHOT,
                     error = Some (''Unknown tool: '' @ toolName), data = JUndefined\<rparr>)"

definition push_message :: "message \<Rightarrow> unit comp" where
  "push_message m = (\<lambda>w. (Inr (), w\<lparr>messages := messages w @ [m]\<rparr>))"

text \<open>The argument of \<open>this.client.messages.create\<close>.\<close>

definition request_of :: "ComputerUseAgent \<Rightarrow> string \<Rightarrow> world \<Rightarrow> request" where
  "request_of this sys w =
     \<lparr>req_model = model this, req_max_tokens = maxTokens this, req_system = sys,
      req_messages = messages w, req_tools = buildTools this\<rparr>"

definition messages_create :: "ComputerUseAgent \<Rightarrow> string \<Rightarrow> response comp" where
  "messages_create this sys =
     (\<lambda>w. (client this (count_list (trace w) ServiceCalled) (request_of this sys w),
            log_event ServiceCalled w))"

text \<open>The body of \<open>for (const block of response.content)\<close>; \<open>toolResults\<close> is the
  array that the loop fills.\<close>

definition toolResultContent :: "ComputerUseAgent \<Rightarrow> string \<Rightarrow> ActionResult \<Rightarrow> exn + block list"
  where
  "toolResultContent this blockName result =
     (if success result then
        (if blockName = ''screenshot'' \<and> truthy (data result)
         then (case get_prop (data result) ''image'' of
                 Inl e \<Rightarrow> Inl e
               | Inr d \<Rightarrow> Inr [ImageBlock d])
         else Inr [TextBlock (''Success: '' @ JSON_stringify this (data result))])
      else Inr [TextBlock (''Error: '' @
                  (case error result of None \<Rightarrow> ''undefined'' | Some e \<Rightarrow> e))])"

fun process_block :: "ComputerUseAgent \<Rightarrow> block \<Rightarrow> block list \<Rightarrow> block list comp" where
  "process_block this (ToolUseBlock block_id block_name block_input) toolResults =
     bindE (executeTool this block_name block_input)
       (\<lambda>result.
          bindE (\<lambda>w. (Inr (),
                   w\<lparr>ctx := (ctx w)\<lparr>actionHistory := actionHistory (ctx w) @ [result]\<rparr>\<rparr>))
            (\<lambda>u. bindE (\<lambda>w. (toolResultContent this block_name result, w))
               (\<lambda>c. returnE (toolResults @ [ToolResultBlock block_id c]))))"
| "process_block this b toolResults = returnE toolResults"

fun process_blocks :: "ComputerUseAgent \<Rightarrow> block list \<Rightarrow> block list \<Rightarrow> block list comp" where
  "process_blocks this [] toolResults w = (Inr toolResults, w)"
| "process_blocks this (b # bs) toolResults w =
     (case process_block this b toolResults w of
        (Inl e, w') \<Rightarrow> (Inl e, w')
      | (Inr toolResults', w') \<Rightarrow> process_blocks this bs toolResults' w')"

datatype loop_exit = Break | Continue

text \<open>The \<open>try\<close> block of one pass of the loop.\<close>

definition try_block :: "ComputerUseAgent \<Rightarrow> string \<Rightarrow> nat \<Rightarrow> loop_exit comp" where
  "try_block this sys i =
     bindE (messages_create this sys)
       (\<lambda>response.
          bindE (push_message \<lparr>role = ''assistant'', content = response_content response\<rparr>)
            (\<lambda>u. if stop_reason response = ''end_turn''
                  then bindE (triggerOnIterationEnd (hooks this) i) (\<lambda>u. returnE Break)
                  else
                    bindE
                      (if stop_reason response = ''tool_use''
                       then bindE (process_blocks this (response_content response) [])
                              (\<lambda>toolResults.
                                 push_message \<lparr>role = ''user'', content = toolResults\<rparr>)
                       else returnE ())
                      (\<lambda>u. bindE (triggerOnIterationEnd (hooks this) i)
                         (\<lambda>u. returnE Continue))))"

definition completed :: "world \<Rightarrow> RunResult" where
  "completed w =
     \<lparr>r_success = True, r_error = None, r_iteration = None,
      r_iterations = Some (iteration (ctx w) + 1), r_state = state (ctx w),
      r_actionHistory = Some (actionHistory (ctx w))\<rparr>"

definition failed :: "exn \<Rightarrow> nat \<Rightarrow> world \<Rightarrow> RunResult" where
  "failed e i w =
     \<lparr>r_success = False, r_error = Some (String_of_exn e), r_iteration = Some i,
      r_iterations = None, r_state = state (ctx w), r_actionHistory = None\<rparr>"

text \<open>
  The loop \<open>for (let iteration = 0; iteration < maxIterations; iteration++)\<close>, from
  pass \<open>i\<close> on. The iteration-start hooks run before the \<open>try\<close>; an exception of
  the \<open>try\<close> block is caught and returned as the failure object.
\<close>

function run_loop ::
  "ComputerUseAgent \<Rightarrow> string \<Rightarrow> int \<Rightarrow> nat \<Rightarrow> world \<Rightarrow> (exn + RunResult) \<times> world" where
  "run_loop this sys maxIterations i w =
     (if int i < maxIterations then
        (case triggerOnIterationStart (hooks this) i
                (log_event (LoopPass i) (w\<lparr>ctx := (ctx w)\<lparr>iteration := i\<rparr>\<rparr>)) of
           (Inl e, w1) \<Rightarrow> (Inl e, w1)
         | (Inr u, w1) \<Rightarrow>
             (case try_block this sys i w1 of
                (Inl e, w2) \<Rightarrow> (Inr (failed e i w2), w2)
              | (Inr Break, w2) \<Rightarrow> (Inr (completed w2), w2)
              | (Inr Continue, w2) \<Rightarrow> run_loop this sys maxIterations (Suc i) w2))
      else (Inr (completed w), w))"
  by pat_completeness auto
termination
  by (relation "measure (\<lambda>(this, sys, maxIterations, i, w). nat (maxIterations - int i))") auto

declare run_loop.simps [simp del]

definition default_system :: string where
  "default_system =
     ''You are a computer use agent. You can see the screen and take actions '' @
     ''like clicking, typing, and scrolling. Analyze what you see and take '' @
     ''appropriate actions to achieve the given goal.''"

definition run ::
  "ComputerUseAgent \<Rightarrow> string \<Rightarrow> int \<Rightarrow> string option \<Rightarrow> world \<Rightarrow> (exn + RunResult) \<times> world"
  where
  "run this goal maxIterations systemPrompt w0 =
     (case takeScreenshot this (w0\<lparr>ctx := new_AgentContext, messages := []\<rparr>) of
        (Inl e, w1) \<Rightarrow> (Inl e, w1)
      | (Inr initialScreenshot, w1) \<Rightarrow>
          run_loop this
            (case systemPrompt of
               None \<Rightarrow> default_system
             | Some s \<Rightarrow> if s = [] then default_system else s)
            maxIterations 0
            (w1\<lparr>messages := messages w1 @
                  [\<lparr>role = ''user'',
                    content = [ImageBlock (JStr initialScreenshot), TextBlock goal]\<rparr>]\<rparr>))"

definition new_world :: world where
  "new_world =
     \<lparr>ctx = new_AgentContext, messages = [], lastActionTime = 0, clock = 0, trace = []\<rparr>"

text \<open>
  A run in which nothing throws: the first screenshot returns and, in every pass that
  the loop makes, the iteration-start hooks return and the \<open>try\<close> block completes
  without an exception. \<open>passes_return\<close> follows the passes from pass \<open>i\<close> on.
\<close>

function passes_return :: "ComputerUseAgent \<Rightarrow> string \<Rightarrow> int \<Rightarrow> nat \<Rightarrow> world \<Rightarrow> bool" where
  "passes_return this sys maxIterations i w =
     (if int i < maxIterations then
        (case triggerOnIterationStart (hooks this) i
                (log_event (LoopPass i) (w\<lparr>ctx := (ctx w)\<lparr>iteration := i\<rparr>\<rparr>)) of
           (Inl e, w1) \<Rightarrow> False
         | (Inr u, w1) \<Rightarrow>
             (case try_block this sys i w1 of
                (Inl e, w2) \<Rightarrow> False
              | (Inr Break, w2) \<Rightarrow> True
              | (Inr Continue, w2) \<Rightarrow> passes_return this sys maxIterations (Suc i) w2))
      else True)"
  by pat_completeness auto
termination
  by (relation "measure (\<lambda>(this, sys, maxIterations, i, w). nat (maxIterations - int i))") auto

declare passes_return.simps [simp del]

definition nothing_throws ::
  "ComputerUseAgent \<Rightarrow> string \<Rightarrow> int \<Rightarrow> string option \<Rightarrow> world \<Rightarrow> bool" where
  "nothing_throws this goal maxIterations systemPrompt w0 =
     (case takeScreenshot this (w0\<lparr>ctx := new_AgentContext, messages := []\<rparr>) of
        (Inl e, w1) \<Rightarrow> False
      | (Inr initialScreenshot, w1) \<Rightarrow>
          passes_return this
            (case systemPrompt of
               None \<Rightarrow> default_system
             | Some s \<Rightarrow> if s = [] then default_system else s)
            maxIterations 0
            (w1\<lparr>messages := messages w1 @
                  [\<lparr>role = ''user'',
                    content = [ImageBlock (JStr initialScreenshot), TextBlock goal]\<rparr>]\<rparr>))"

section \<open>Constructors\<close>

definition new_HookRegistry :: HookRegistry where
  "new_HookRegistry =
     \<lparr>beforeScreenshot = [], afterScreenshot = [], beforeAction = [], afterAction = [],
      onToolCall = [], onIterationStart = [], onIterationEnd = []\<rparr>"

definition new_WorkflowEngine :: WorkflowEngine where
  "new_WorkflowEngine = \<lparr>customTools = [], conditionalHandlers = []\<rparr>"

text \<open>The executor as the agent's constructor builds it: the rate limit keeps its
  default of 0.05 seconds.\<close>

definition new_ActionExecutor ::
  "ScreenRegion option \<Rightarrow> int \<Rightarrow> string \<Rightarrow> (robot_call \<Rightarrow> exn option) \<Rightarrow> ActionExecutor" where
  "new_ActionExecutor region delay mode rb =
     \<lparr>allowedRegion = region, safetyDelay = delay, confirmationMode = mode,
      rateLimitDelay = 50, robot = rb\<rparr>"

record ComputerUseAgentConfig =
  cfg_model :: "string option"
  cfg_allowedActionRegion :: "ScreenRegion option"
  cfg_safetyDelay :: "int option"
  cfg_confirmationMode :: "string option"
  cfg_maxTokens :: "int option"

definition new_ComputerUseAgent ::
  "ComputerUseAgentConfig \<Rightarrow> (nat \<Rightarrow> request \<Rightarrow> exn + response) \<Rightarrow> (nat \<Rightarrow> exn + string)
     \<Rightarrow> (robot_call \<Rightarrow> exn option) \<Rightarrow> (jval \<Rightarrow> string) \<Rightarrow> ComputerUseAgent" where
  "new_ComputerUseAgent config service capture rb stringify =
     \<lparr>client = service, screen = capture,
      executor = new_ActionExecutor (cfg_allowedActionRegion config)
                   (case cfg_safetyDelay config of None \<Rightarrow> 100 | Some d \<Rightarrow> d)
                   (case cfg_confirmationMode config of None \<Rightarrow> ''auto'' | Some m \<Rightarrow> m) rb,
      workflow = new_WorkflowEngine, hooks = new_HookRegistry,
      model = (case cfg_model config of None \<Rightarrow> ''claude-sonnet-4-20250514'' | Some m \<Rightarrow> m),
      maxTokens = (case cfg_maxTokens config of None \<Rightarrow> 4096 | Some t \<Rightarrow> t),
      JSON_stringify = stringify\<rparr>"

text \<open>The names of the built-in tools.\<close>

definition is_builtin :: "string \<Rightarrow> bool" where
  "is_builtin toolName = (toolName \<in> set (map fst getDefaultTools))"

section \<open>Reading the trace\<close>

fun is_ConditionCalled :: "event \<Rightarrow> bool" where
  "is_ConditionCalled (ConditionCalled k i) = True"
| "is_ConditionCalled e = False"

fun is_RobotCalled :: "event \<Rightarrow> bool" where
  "is_RobotCalled (RobotCalled c) = True"
| "is_RobotCalled e = False"

fun is_OnToolCall :: "event \<Rightarrow> bool" where
  "is_OnToolCall (HookCalled (OnToolCall k)) = True"
| "is_OnToolCall e = False"

fun is_LoopPass :: "event \<Rightarrow> bool" where
  "is_LoopPass (LoopPass i) = True"
| "is_LoopPass e = False"

fun is_loop_event :: "event \<Rightarrow> bool" where
  "is_loop_event ServiceCalled = True"
| "is_loop_event (LoopPass i) = True"
| "is_loop_event e = False"

text \<open>
  \<open>extends P w w'\<close>: the world \<open>w'\<close> has the trace of \<open>w\<close> followed by events that
  all satisfy \<open>P\<close>, and the action history, the iteration index and the messages of
  \<open>w\<close>. \<open>only_adds P m\<close>: the computation \<open>m\<close> takes every world to such a world.
\<close>

definition extends :: "(event \<Rightarrow> bool) \<Rightarrow> world \<Rightarrow> world \<Rightarrow> bool" where
  "extends P w w' =
     ((\<exists>evs. trace w' = trace w @ evs \<and> list_all P evs) \<and>
      actionHistory (ctx w') = actionHistory (ctx w) \<and>
      iteration (ctx w') = iteration (ctx w) \<and>
      messages w' = messages w)"

definition only_adds :: "(event \<Rightarrow> bool) \<Rightarrow> 'a comp \<Rightarrow> bool" where
  "only_adds P m = (\<forall>w. extends P w (snd (m w)))"

text \<open>\<open>grows P w w'\<close>: the world \<open>w'\<close> has the trace of \<open>w\<close> followed by events that
  all satisfy \<open>P\<close>, and the iteration index of \<open>w\<close>.\<close>

definition grows :: "(event \<Rightarrow> bool) \<Rightarrow> world \<Rightarrow> world \<Rightarrow> bool" where
  "grows P w w' =
     ((\<exists>evs. trace w' = trace w @ evs \<and> list_all P evs) \<and>
      iteration (ctx w') = iteration (ctx w))"

text \<open>The events that a dispatch may add: anything but a request to the reasoning
  service or a loop mark and, in dry-run mode, anything but a robot operation.\<close>

definition dispatch_event :: "ComputerUseAgent \<Rightarrow> event \<Rightarrow> bool" where
  "dispatch_event ag e =
     (\<not> is_loop_event e \<and> (confirmationMode (executor ag) = ''dry-run'' \<longrightarrow> \<not> is_RobotCalled e))"

text \<open>The result of an operation that dry-run mode simulates.\<close>

definition dry_result :: "ActionType \<Rightarrow> ActionResult" where
  "dry_result t = \<lparr>success = True, actionType = t, error = None, data = dryRun_data\<rparr>"

section \<open>The pairing of tool uses and tool results, as the specification words it\<close>

text \<open>The tool-use blocks of a reply, in order of appearance: id, name and input.\<close>

fun tool_uses :: "block list \<Rightarrow> (string \<times> string \<times> jval) list" where
  "tool_uses [] = []"
| "tool_uses (ToolUseBlock i n v # bs) = (i, n, v) # tool_uses bs"
| "tool_uses (b # bs) = tool_uses bs"

text \<open>Dispatching tool uses one after the other, each result being appended to the
  action history before the next dispatch; the results in that order.\<close>

fun dispatch_all ::
  "ComputerUseAgent \<Rightarrow> (string \<times> string \<times> jval) list \<Rightarrow> ActionResult list comp" where
  "dispatch_all ag [] w = (Inr [], w)"
| "dispatch_all ag ((i, n, v) # us) w =
     (case executeTool ag n v w of
        (Inl e, w1) \<Rightarrow> (Inl e, w1)
      | (Inr r, w1) \<Rightarrow>
          (case dispatch_all ag us
                  (w1\<lparr>ctx := (ctx w1)\<lparr>actionHistory := actionHistory (ctx w1) @ [r]\<rparr>\<rparr>) of
             (Inl e, w2) \<Rightarrow> (Inl e, w2)
           | (Inr rs, w2) \<Rightarrow> (Inr (r # rs), w2)))"

text \<open>The tool-result block that answers a tool use, given the result of its
  dispatch: keyed by the id of the tool use.\<close>

fun tool_result_for :: "ComputerUseAgent \<Rightarrow> string \<times> string \<times> jval \<Rightarrow> ActionResult \<Rightarrow> block" where
  "tool_result_for ag (i, n, v) r =
     ToolResultBlock i (case toolResultContent ag n r of Inl e \<Rightarrow> [] | Inr c \<Rightarrow> c)"

text \<open>The id that a tool-result block carries.\<close>

fun tool_use_id :: "block \<Rightarrow> string option" where
  "tool_use_id (ToolResultBlock i c) = Some i"
| "tool_use_id b = None"

section \<open>Sample configurations\<close>

text \<open>Sample collaborators: a robot and a screen that never fail, a rendering that
  does not look at the value, callbacks that return a fixed value or throw.\<close>

definition robot_ok :: "robot_call \<Rightarrow> exn option" where
  "robot_ok c = None"

definition screen_ok :: "nat \<Rightarrow> exn + string" where
  "screen_ok n = Inr ''iVBORw0KGgo=''"

definition stringify_stub :: "jval \<Rightarrow> string" where
  "stringify_stub v = ''{}''"

definition returning :: "jval \<Rightarrow> callback" where
  "returning v = (\<lambda>c args. (Inr v, state c))"

definition throwing :: "string \<Rightarrow> callback" where
  "throwing s = (\<lambda>c args. (Inl (Exn s), state c))"

definition sample_region :: ScreenRegion where
  "sample_region = \<lparr>region_x = 100, region_y = 100, region_width = 800, region_height = 600\<rparr>"

definition default_config :: ComputerUseAgentConfig where
  "default_config =
     \<lparr>cfg_model = None, cfg_allowedActionRegion = None, cfg_safetyDelay = None,
      cfg_confirmationMode = None, cfg_maxTokens = None\<rparr>"

definition sample_executor :: ActionExecutor where
  "sample_executor = new_ActionExecutor (Some sample_region) 100 ''auto'' robot_ok"

text \<open>Two conditional handlers for \<open>click\<close>: the predicate of the first throws,
  the second fires.\<close>

definition sample_engine :: WorkflowEngine where
  "sample_engine =
     registerConditionalHandler ''click'' (returning (JBool True)) (returning JUndefined)
       (registerConditionalHandler ''click'' (throwing ''boom'') (returning JUndefined)
          new_WorkflowEngine)"

text \<open>A reasoning service that asks for two tools on every call, a click inside the
  sample region and a tool that nobody provides; sample agents around it.\<close>

definition two_tools :: response where
  "two_tools =
     \<lparr>stop_reason = ''tool_use'',
      response_content =
        [TextBlock ''working'',
         ToolUseBlock ''a'' ''click'' (JObj [(''x'', JNum 900), (''y'', JNum 700)]),
         ToolUseBlock ''b'' ''frobnicate'' (JObj [])]\<rparr>"

definition sample_service :: "nat \<Rightarrow> request \<Rightarrow> exn + response" where
  "sample_service n req = Inr two_tools"

definition sample_agent :: ComputerUseAgent where
  "sample_agent =
     new_ComputerUseAgent (default_config\<lparr>cfg_allowedActionRegion := Some sample_region\<rparr>)
       sample_service screen_ok robot_ok stringify_stub"

text \<open>Variations: a wildcard on-tool-call hook that throws; a custom tool under the
  name \<open>click\<close>, with a before-action hook that would throw if it were called; the
  same with an on-tool-call hook for \<open>click\<close> that throws; dry-run mode; an
  iteration-start hook that throws; a screen that cannot be captured; an on-tool-call
  hook that throws for the second tool of the reply.\<close>

definition guarded_agent :: ComputerUseAgent where
  "guarded_agent =
     sample_agent\<lparr>hooks := registerOnToolCall None (throwing ''tool calls are disabled'')
                               new_HookRegistry\<rparr>"

definition override_agent :: ComputerUseAgent where
  "override_agent =
     sample_agent\<lparr>workflow := registerTool ''click'' ''a click of our own''
                                  (returning (JStr ''clicked'')) new_WorkflowEngine,
                  hooks := registerBeforeAction (throwing ''never reached'') new_HookRegistry\<rparr>"

definition vetoed_agent :: ComputerUseAgent where
  "vetoed_agent =
     override_agent\<lparr>hooks := registerOnToolCall (Some ''click'') (throwing ''vetoed'')
                                 new_HookRegistry\<rparr>"


definition impatient_agent :: ComputerUseAgent where
  "impatient_agent =
     sample_agent\<lparr>hooks := new_HookRegistry\<lparr>onIterationStart := [throwing ''not today'']\<rparr>\<rparr>"

definition blind_agent :: ComputerUseAgent where
  "blind_agent = sample_agent\<lparr>screen := (\<lambda>n. Inl (Exn ''no display''))\<rparr>"

definition picky_agent :: ComputerUseAgent where
  "picky_agent =
     sample_agent\<lparr>hooks := registerOnToolCall (Some ''frobnicate'') (throwing ''vetoed'')
                               new_HookRegistry\<rparr>"

section \<open>Properties\<close>

subsection \<open>Basic facts\<close>

lemma call_eq:
  "call ev f args w =
     (fst (f (ctx w) args), (log_event ev w)\<lparr>ctx := (ctx w)\<lparr>state := snd (f (ctx w) args)\<rparr>\<rparr>)"
  by (simp add: call_def split: prod.splits)

lemma forEach_append:
  "forEach (xs @ ys) f w =
     (case forEach xs f w of (Inl e, w') \<Rightarrow> (Inl e, w') | (Inr u, w') \<Rightarrow> forEach ys f w')"
  by (induction xs arbitrary: w) (auto split: prod.splits sum.splits)



lemma show_int_50: "show_int 50 = ''50''"
  by (simp add: show_int_def show_nat.simps)

subsection \<open>What a computation adds to the trace\<close>

lemma extends_refl: "extends P w w"
  by (simp add: extends_def)

lemma extends_trans: "extends P w w1 \<Longrightarrow> extends P w1 w2 \<Longrightarrow> extends P w w2"
  by (auto simp: extends_def)

lemma extends_mono: "extends P w w' \<Longrightarrow> (\<And>e. P e \<Longrightarrow> Q e) \<Longrightarrow> extends Q w w'"
  by (auto simp: extends_def list_all_iff)

lemma only_addsD: "only_adds P m \<Longrightarrow> m w = (r, w') \<Longrightarrow> extends P w w'"
  by (auto simp: only_adds_def dest: spec [of _ w])

lemma only_adds_mono: "only_adds P m \<Longrightarrow> (\<And>e. P e \<Longrightarrow> Q e) \<Longrightarrow> only_adds Q m"
  by (auto simp: only_adds_def intro: extends_mono)

lemma only_adds_returnE: "only_adds P (returnE a)"
  by (simp add: only_adds_def returnE_def extends_refl)

lemma only_adds_throw: "only_adds P (throw e)"
  by (simp add: only_adds_def throw_def extends_refl)

lemma only_adds_bindE:
  assumes "only_adds P m" and "\<And>a. only_adds P (f a)"
  shows "only_adds P (bindE m f)"
  unfolding only_adds_def
proof
  fix w
  obtain r w1 where m: "m w = (r, w1)" by (cases "m w")
  have 1: "extends P w w1" using only_addsD [OF assms(1) m] .
  show "extends P w (snd (bindE m f w))"
  proof (cases r)
    case (Inl e)
    with m 1 show ?thesis by (simp add: bindE_def)
  next
    case (Inr a)
    have "extends P w1 (snd (f a w1))" using assms(2) [of a] by (simp add: only_adds_def)
    with m 1 Inr show ?thesis by (auto simp: bindE_def intro: extends_trans)
  qed
qed

lemma only_adds_tryCatch:
  assumes "only_adds P m" and "\<And>e. only_adds P (h e)"
  shows "only_adds P (tryCatch m h)"
  unfolding only_adds_def
proof
  fix w
  obtain r w1 where m: "m w = (r, w1)" by (cases "m w")
  have 1: "extends P w w1" using only_addsD [OF assms(1) m] .
  show "extends P w (snd (tryCatch m h w))"
  proof (cases r)
    case (Inr a)
    with m 1 show ?thesis by (simp add: tryCatch_def)
  next
    case (Inl e)
    have "extends P w1 (snd (h e w1))" using assms(2) [of e] by (simp add: only_adds_def)
    with m 1 Inl show ?thesis by (auto simp: tryCatch_def intro: extends_trans)
  qed
qed

lemma only_adds_ignore: "only_adds P m \<Longrightarrow> only_adds P (ignore m)"
  by (simp add: ignore_def only_adds_bindE only_adds_returnE)

lemma only_adds_call: "P ev \<Longrightarrow> only_adds P (call ev f args)"
  by (simp add: only_adds_def call_eq extends_def log_event_def)

lemma only_adds_console_error: "P (ConsoleError e) \<Longrightarrow> only_adds P (console_error e)"
  by (simp add: only_adds_def console_error_def extends_def log_event_def)

lemma only_adds_forEach:
  assumes "\<And>x. only_adds P (f x)"
  shows "only_adds P (forEach xs f)"
  unfolding only_adds_def
proof
  fix w
  show "extends P w (snd (forEach xs f w))"
  proof (induction xs arbitrary: w)
    case Nil
    show ?case by (simp add: extends_refl)
  next
    case (Cons x xs)
    obtain r w1 where m: "f x w = (r, w1)" by (cases "f x w")
    have 1: "extends P w w1" using only_addsD [OF assms m] .
    show ?case
    proof (cases r)
      case (Inl e)
      with m 1 show ?thesis by simp
    next
      case (Inr a)
      with m 1 Cons.IH [of w1] show ?thesis by (auto intro: extends_trans)
    qed
  qed
qed

lemma only_adds_chain:
  assumes "\<And>h m. only_adds P (invoke h m)"
  shows "only_adds P (chain hs invoke m)"
  unfolding only_adds_def
proof
  fix w
  show "extends P w (snd (chain hs invoke m w))"
  proof (induction hs arbitrary: m w)
    case Nil
    show ?case by (simp add: extends_refl)
  next
    case (Cons h hs)
    obtain r w1 where c: "invoke h m w = (r, w1)" by (cases "invoke h m w")
    have 1: "extends P w w1" using only_addsD [OF assms c] .
    show ?case
    proof (cases r)
      case (Inl e)
      with c 1 show ?thesis by simp
    next
      case (Inr a)
      with c 1 Cons.IH [where w = w1] show ?thesis by (auto intro: extends_trans)
    qed
  qed
qed

lemma only_adds_if:
  "(c \<Longrightarrow> only_adds P a) \<Longrightarrow> (\<not> c \<Longrightarrow> only_adds P b) \<Longrightarrow> only_adds P (if c then a else b)"
  by simp

lemma only_adds_read_prop: "only_adds P (read_prop v k)"
  by (simp add: only_adds_def read_prop_def extends_refl)

lemma only_adds_triggerOnToolCall:
  "only_adds is_OnToolCall (triggerOnToolCall reg name input)"
  unfolding triggerOnToolCall_def
  by (intro only_adds_bindE) (auto split: option.splits intro!: only_adds_returnE only_adds_chain only_adds_call)

lemma only_adds_triggerBeforeAction:
  "P (HookCalled BeforeAction) \<Longrightarrow> only_adds P (triggerBeforeAction reg action)"
  unfolding triggerBeforeAction_def
  by (intro only_adds_chain only_adds_call)

lemma only_adds_triggerAfterAction:
  "P (HookCalled AfterAction) \<Longrightarrow> only_adds P (triggerAfterAction reg action r)"
  unfolding triggerAfterAction_def
  by (intro only_adds_forEach only_adds_ignore only_adds_call)

lemma only_adds_evaluate_handler:
  "(\<And>e. \<not> is_loop_event e \<Longrightarrow> \<not> is_RobotCalled e \<Longrightarrow> P e) \<Longrightarrow> only_adds P (evaluate_handler kind action p)"
  unfolding evaluate_handler_def
  by (cases p) (auto intro!: only_adds_tryCatch only_adds_bindE only_adds_call only_adds_ignore
        only_adds_returnE only_adds_console_error)

lemma only_adds_checkConditionalHandlers:
  "(\<And>e. \<not> is_loop_event e \<Longrightarrow> \<not> is_RobotCalled e \<Longrightarrow> P e) \<Longrightarrow>
   only_adds P (checkConditionalHandlers eng kind action)"
  unfolding checkConditionalHandlers_def
  by (auto split: option.splits intro!: only_adds_returnE only_adds_forEach
        only_adds_evaluate_handler)


lemma extends_rateLimit: "extends P w (rateLimit ex w)"
  by (simp add: rateLimit_def sleep_def extends_def Let_def)

lemma extends_sleep: "extends P w (sleep d w)"
  by (simp add: sleep_def extends_def)

lemma only_adds_robot_op: "P (RobotCalled c) \<Longrightarrow> only_adds P (robot_op ex c)"
  by (simp add: only_adds_def robot_op_def extends_def log_event_def)

lemma only_adds_executeWithSafety:
  assumes "confirmationMode ex \<noteq> ''dry-run'' \<Longrightarrow> only_adds P f"
  shows "only_adds P (lift (executeWithSafety ex f t))"
  unfolding only_adds_def
proof
  fix w
  show "extends P w (snd (lift (executeWithSafety ex f t) w))"
  proof (cases "confirmationMode ex = ''dry-run''")
    case True
    then show ?thesis by (simp add: lift_def executeWithSafety_def extends_refl)
  next
    case False
    obtain r w1 where f: "f (rateLimit ex w) = (r, w1)" by (cases "f (rateLimit ex w)")
    have "extends P (rateLimit ex w) w1" using only_addsD [OF assms [OF False] f] .
    then have 1: "extends P w w1" using extends_rateLimit extends_trans by blast
    then have 2: "extends P w (sleep (safetyDelay ex) w1)"
      using extends_sleep extends_trans by blast
    from False f 1 2 show ?thesis
      by (cases r) (simp_all add: lift_def executeWithSafety_def)
  qed
qed

lemma only_adds_lift_const: "only_adds P (lift (\<lambda>w. (a, w)))"
  by (simp add: only_adds_def lift_def extends_refl)

lemma lift_if: "lift (\<lambda>w. if c then f w else g w) = (if c then lift f else lift g)"
  by (simp add: lift_def)

lemma robot_funcs:
  assumes "\<And>c. P (RobotCalled c)"
  shows "only_adds P (mouseMove_func ex x y)" "only_adds P (click_func ex x y b n)"
    "only_adds P (scroll_func ex d a x y)"
  unfolding mouseMove_func_def click_func_def scroll_func_def Let_def
  by (auto intro!: only_adds_bindE only_adds_returnE only_adds_robot_op only_adds_forEach assms)

lemma only_adds_executor:
  assumes "confirmationMode ex \<noteq> ''dry-run'' \<Longrightarrow> (\<And>c. P (RobotCalled c))"
  shows "only_adds P (lift (mouseMove ex x y))" "only_adds P (lift (click ex x y b n))"
    "only_adds P (lift (typeText ex t))" "only_adds P (lift (pressKey ex k))"
    "only_adds P (lift (scroll ex d a x y))"
proof -
  show "only_adds P (lift (mouseMove ex x y))"
    unfolding mouseMove_def lift_if
    by (auto intro!: only_adds_lift_const only_adds_executeWithSafety robot_funcs assms)
  show "only_adds P (lift (click ex x y b n))"
    unfolding click_def lift_if
    by (auto intro!: only_adds_lift_const only_adds_executeWithSafety robot_funcs assms)
  show "only_adds P (lift (scroll ex d a x y))"
    unfolding scroll_def lift_if
    by (auto intro!: only_adds_lift_const only_adds_executeWithSafety robot_funcs assms)
  show "only_adds P (lift (typeText ex t))"
    unfolding typeText_def
    by (intro only_adds_executeWithSafety only_adds_bindE only_adds_returnE only_adds_robot_op assms)
       (simp_all add: only_adds_def extends_refl)
  show "only_adds P (lift (pressKey ex k))"
    unfolding pressKey_def
    by (intro only_adds_executeWithSafety only_adds_bindE only_adds_returnE only_adds_robot_op assms)
qed

lemma only_adds_takeScreenshot:
  assumes "\<And>e. \<not> is_loop_event e \<Longrightarrow> \<not> is_RobotCalled e \<Longrightarrow> P e"
  shows "only_adds P (takeScreenshot ag)"
proof -
  have 1: "only_adds P (captureBase64 ag)"
    by (simp add: only_adds_def captureBase64_def extends_def log_event_def assms)
  have 2: "only_adds P (\<lambda>w. (Inr (), w\<lparr>ctx := (ctx w)\<lparr>lastScreenshot := Some i\<rparr>\<rparr>))" for i
    by (simp add: only_adds_def extends_def)
  show ?thesis
    unfolding takeScreenshot_def triggerBeforeScreenshot_def triggerAfterScreenshot_def
    by (intro only_adds_bindE only_adds_returnE only_adds_forEach only_adds_ignore
          only_adds_call 1 2 assms) simp_all
qed

lemma only_adds_builtin_action:
  assumes "\<And>e. \<not> is_loop_event e \<Longrightarrow> \<not> is_RobotCalled e \<Longrightarrow> P e"
    and "\<And>a. only_adds P (operation a)"
  shows "only_adds P (builtin_action ag name m operation)"
  unfolding builtin_action_def
  by (intro only_adds_bindE only_adds_returnE only_adds_triggerBeforeAction
        only_adds_triggerAfterAction only_adds_checkConditionalHandlers assms) simp_all

lemma dispatch_event_simps:
  "\<not> is_loop_event e \<Longrightarrow> \<not> is_RobotCalled e \<Longrightarrow> dispatch_event ag e"
  "confirmationMode (executor ag) \<noteq> ''dry-run'' \<Longrightarrow> dispatch_event ag (RobotCalled c)"
  by (simp_all add: dispatch_event_def)

lemma only_adds_WorkflowEngine_executeTool:
  "P (CustomToolCalled name) \<Longrightarrow> only_adds P (WorkflowEngine_executeTool eng name m)"
  unfolding WorkflowEngine_executeTool_def
  by (auto split: option.splits intro!: only_adds_throw only_adds_call)

lemma only_adds_executeTool:
  "only_adds (dispatch_event ag) (executeTool ag name input)"
  unfolding executeTool_def
  apply (rule only_adds_bindE)
   apply (rule only_adds_mono [OF only_adds_triggerOnToolCall])
  subgoal for e by (cases e) (auto simp: dispatch_event_def elim: is_OnToolCall.elims)
  apply (intro only_adds_if only_adds_tryCatch only_adds_bindE only_adds_returnE
        only_adds_builtin_action only_adds_read_prop only_adds_executor
        only_adds_takeScreenshot only_adds_WorkflowEngine_executeTool)
  apply (simp_all add: dispatch_event_simps)
  done

subsection \<open>The allowed region\<close>

lemma checkAllowed_region:
  "allowedRegion ex = Some r \<Longrightarrow>
   checkAllowed ex (Some x) (Some y) =
     (region_x r \<le> x \<and> x \<le> region_x r + region_width r \<and>
      region_y r \<le> y \<and> y \<le> region_y r + region_height r)"
  by (simp add: checkAllowed_def)

text \<open>
  C4. With an allowed region \<open>r\<close> configured, an executor operation at coordinates
  \<open>(x, y)\<close> (click, double click, mouse move, scroll with both coordinates) is
  permitted exactly when \<open>r.x \<le> x \<le> r.x + r.width\<close> and
  \<open>r.y \<le> y \<le> r.y + r.height\<close>, all four bounds inclusive: inside, the operation is
  handed to \<open>executeWithSafety\<close>; outside, the result is a failed ActionResult of the
  operation's action type whose error is
  \<open>Coordinates (x, y) outside allowed region\<close>, and the world, trace included, is
  left as it was, so that no robot operation is invoked.
\<close>

theorem region_check_inclusive:
  assumes "allowedRegion ex = Some r"
  shows
    "(region_x r \<le> x \<and> x \<le> region_x r + region_width r \<and>
      region_y r \<le> y \<and> y \<le> region_y r + region_height r \<longrightarrow>
        click ex (Some x) (Some y) button clicks w =
          executeWithSafety ex (click_func ex (Some x) (Some y) button clicks) CLICK w \<and>
        doubleClick ex (Some x) (Some y) w =
          executeWithSafety ex (click_func ex (Some x) (Some y) (JStr ''left'') (Some 2)) CLICK w \<and>
        mouseMove ex (Some x) (Some y) w =
          executeWithSafety ex (mouseMove_func ex (Some x) (Some y)) MOUSE_MOVE w \<and>
        scroll ex direction amount (Some x) (Some y) w =
          executeWithSafety ex (scroll_func ex direction amount (Some x) (Some y)) SCROLL w) \<and>
     (\<not> (region_x r \<le> x \<and> x \<le> region_x r + region_width r \<and>
         region_y r \<le> y \<and> y \<le> region_y r + region_height r) \<longrightarrow>
        (\<forall>t. success (outside_region t (Some x) (Some y)) = False \<and>
             actionType (outside_region t (Some x) (Some y)) = t \<and>
             error (outside_region t (Some x) (Some y)) =
               Some (''Coordinates ('' @ show_int x @ '', '' @ show_int y @
                     '') outside allowed region'')) \<and>
        click ex (Some x) (Some y) button clicks w =
          (outside_region CLICK (Some x) (Some y), w) \<and>
        doubleClick ex (Some x) (Some y) w = (outside_region CLICK (Some x) (Some y), w) \<and>
        mouseMove ex (Some x) (Some y) w = (outside_region MOUSE_MOVE (Some x) (Some y), w) \<and>
        scroll ex direction amount (Some x) (Some y) w =
          (outside_region SCROLL (Some x) (Some y), w))"
  using checkAllowed_region [OF assms, of x y]
  by (simp add: click_def doubleClick_def mouseMove_def scroll_def outside_region_def)

theorem region_check_inclusive_witness:
  "click sample_executor (Some 900) (Some 700) (JStr ''left'') (Some 1) new_world =
     executeWithSafety sample_executor
       (click_func sample_executor (Some 900) (Some 700) (JStr ''left'') (Some 1)) CLICK new_world \<and>
   trace (snd (click sample_executor (Some 900) (Some 700) (JStr ''left'') (Some 1) new_world)) =
     [RobotCalled (MoveMouse (Some 900) (Some 700)), RobotCalled (MouseClick (JStr ''left''))] \<and>
   click sample_executor (Some 50) (Some 50) (JStr ''left'') (Some 1) new_world =
     (\<lparr>success = False, actionType = CLICK,
       error = Some ''Coordinates (50, 50) outside allowed region'', data = JUndefined\<rparr>,
      new_world)"
proof -
  have r: "allowedRegion sample_executor = Some sample_region"
    by (simp add: sample_executor_def new_ActionExecutor_def)
  have inside: "click sample_executor (Some 900) (Some 700) (JStr ''left'') (Some 1) new_world =
     executeWithSafety sample_executor
       (click_func sample_executor (Some 900) (Some 700) (JStr ''left'') (Some 1)) CLICK new_world"
    using region_check_inclusive [OF r, of 900 700 "JStr ''left''" "Some 1" new_world]
    by (simp add: sample_region_def)
  have outside: "click sample_executor (Some 50) (Some 50) (JStr ''left'') (Some 1) new_world =
     (outside_region CLICK (Some 50) (Some 50), new_world)"
    using region_check_inclusive [OF r, of 50 50 "JStr ''left''" "Some 1" new_world]
    by (simp add: sample_region_def)
  have robot_calls: "trace (snd (executeWithSafety sample_executor
       (click_func sample_executor (Some 900) (Some 700) (JStr ''left'') (Some 1)) CLICK new_world)) =
     [RobotCalled (MoveMouse (Some 900) (Some 700)), RobotCalled (MouseClick (JStr ''left''))]"
    by (simp add: executeWithSafety_def sample_executor_def new_ActionExecutor_def
          click_func_def bindE_def returnE_def robot_op_def robot_ok_def rateLimit_def
          sleep_def log_event_def new_world_def upt_rec)
  show ?thesis
    using inside outside robot_calls by (simp add: outside_region_def show_int_50)
qed

subsection \<open>The before-action chain\<close>



subsection \<open>Conditional handlers\<close>

lemma evaluate_handler_returns:
  "\<exists>w' evs. evaluate_handler kind action (i, c, h) w = (Inr (), w') \<and>
      trace w' = trace w @ ConditionCalled kind i # evs \<and> filter is_ConditionCalled evs = []"
  by (auto simp: evaluate_handler_def tryCatch_def bindE_def returnE_def ignore_def call_eq
        console_error_def log_event_def split: prod.splits sum.splits)

lemma forEach_evaluate_handler:
  "\<exists>w' evs. forEach (enumerate n hs) (evaluate_handler kind action) w = (Inr (), w') \<and>
      trace w' = trace w @ evs \<and>
      filter is_ConditionCalled evs = map (ConditionCalled kind) [n..<n + length hs]"
proof (induction hs arbitrary: n w)
  case Nil
  show ?case by simp
next
  case (Cons p hs)
  obtain c h where p: "p = (c, h)" by (cases p)
  obtain w1 evs1 where 1: "evaluate_handler kind action (n, c, h) w = (Inr (), w1)"
    "trace w1 = trace w @ ConditionCalled kind n # evs1" "filter is_ConditionCalled evs1 = []"
    using evaluate_handler_returns by blast
  obtain w2 evs2 where 2:
    "forEach (enumerate (Suc n) hs) (evaluate_handler kind action) w1 = (Inr (), w2)"
    "trace w2 = trace w1 @ evs2"
    "filter is_ConditionCalled evs2 = map (ConditionCalled kind) [Suc n..<Suc n + length hs]"
    using Cons.IH by blast
  have "[n..<n + length (p # hs)] = n # [Suc n..<Suc n + length hs]"
    by (subst upt_rec) simp
  with 1 2 p show ?case by simp
qed

text \<open>
  C8. For the list \<open>hs\<close> of conditional handlers registered for an action kind,
  \<open>checkConditionalHandlers\<close> always returns normally, and the predicates it has
  called are those of all the pairs of \<open>hs\<close>, each once, in registration order,
  whatever any predicate or handler did. Registering one more pair extends the
  evaluation at its end: the new predicate is called in the world that the earlier
  pairs leave, whether or not one of them threw; its handler is called when the
  predicate's result is truthy; an exception of either is passed to
  \<open>console.error\<close> and the call still returns normally.
\<close>

theorem conditional_handlers_isolated:
  "(map_of (conditionalHandlers eng) kind = Some hs \<longrightarrow>
      (\<exists>w' evs. checkConditionalHandlers eng kind action w = (Inr (), w') \<and>
         trace w' = trace w @ evs \<and>
         filter is_ConditionCalled evs = map (ConditionCalled kind) [0..<length hs])) \<and>
   (map_of (conditionalHandlers eng) kind = Some hs \<longrightarrow>
      checkConditionalHandlers (registerConditionalHandler kind c h eng) kind action w =
        (case checkConditionalHandlers eng kind action w of
           (r, w1) \<Rightarrow>
             (case call (ConditionCalled kind (length hs)) c [Val action] w1 of
                (Inl e, w2) \<Rightarrow> (Inr (), log_event (ConsoleError e) w2)
              | (Inr v, w2) \<Rightarrow>
                  if truthy v
                  then (case call (HandlerCalled kind (length hs)) h [Val action] w2 of
                          (Inl e, w3) \<Rightarrow> (Inr (), log_event (ConsoleError e) w3)
                        | (Inr u, w3) \<Rightarrow> (Inr (), w3))
                  else (Inr (), w2))))"
proof (intro conjI impI)
  assume hs: "map_of (conditionalHandlers eng) kind = Some hs"
  show "\<exists>w' evs. checkConditionalHandlers eng kind action w = (Inr (), w') \<and>
         trace w' = trace w @ evs \<and>
         filter is_ConditionCalled evs = map (ConditionCalled kind) [0..<length hs]"
    using forEach_evaluate_handler [of 0 hs kind action w] hs
    by (simp add: checkConditionalHandlers_def)
  obtain w1 where w1: "forEach (enumerate 0 hs) (evaluate_handler kind action) w = (Inr (), w1)"
    using forEach_evaluate_handler [of 0 hs kind action w] by blast
  have "enumerate 0 (hs @ [(c, h)]) = enumerate 0 hs @ [(length hs, c, h)]"
    by (simp add: enumerate_append_eq)
  then show "checkConditionalHandlers (registerConditionalHandler kind c h eng) kind action w =
        (case checkConditionalHandlers eng kind action w of
           (r, w1) \<Rightarrow>
             (case call (ConditionCalled kind (length hs)) c [Val action] w1 of
                (Inl e, w2) \<Rightarrow> (Inr (), log_event (ConsoleError e) w2)
              | (Inr v, w2) \<Rightarrow>
                  if truthy v
                  then (case call (HandlerCalled kind (length hs)) h [Val action] w2 of
                          (Inl e, w3) \<Rightarrow> (Inr (), log_event (ConsoleError e) w3)
                        | (Inr u, w3) \<Rightarrow> (Inr (), w3))
                  else (Inr (), w2)))"
    using hs w1
    by (simp add: checkConditionalHandlers_def registerConditionalHandler_def
          update_conv' forEach_append evaluate_handler_def tryCatch_def bindE_def
          returnE_def ignore_def console_error_def split: prod.splits sum.splits)
qed

lemma sample_engine_handlers:
  "map_of (conditionalHandlers sample_engine) ''click'' =
     Some [(throwing ''boom'', returning JUndefined), (returning (JBool True), returning JUndefined)]"
  by (simp add: sample_engine_def registerConditionalHandler_def new_WorkflowEngine_def)

theorem conditional_handlers_isolated_witness:
  "(\<exists>w' evs. checkConditionalHandlers sample_engine ''click'' (JObj []) new_world = (Inr (), w') \<and>
       trace w' = trace new_world @ evs \<and>
       filter is_ConditionCalled evs = [ConditionCalled ''click'' 0, ConditionCalled ''click'' 1]) \<and>
   trace (snd (checkConditionalHandlers sample_engine ''click'' (JObj []) new_world)) =
     [ConditionCalled ''click'' 0, ConsoleError (Exn ''boom''),
      ConditionCalled ''click'' 1, HandlerCalled ''click'' 1]"
proof
  have len: "[0..<length [(throwing ''boom'', returning JUndefined),
                          (returning (JBool True), returning JUndefined)]] = [0, 1]"
    by (simp add: upt_rec)
  show "\<exists>w' evs. checkConditionalHandlers sample_engine ''click'' (JObj []) new_world = (Inr (), w') \<and>
       trace w' = trace new_world @ evs \<and>
       filter is_ConditionCalled evs = [ConditionCalled ''click'' 0, ConditionCalled ''click'' 1]"
    using conditional_handlers_isolated
      [where eng = sample_engine and kind = "''click''" and action = "JObj []"
         and w = new_world
         and hs = "[(throwing ''boom'', returning JUndefined),
                    (returning (JBool True), returning JUndefined)]"]
      sample_engine_handlers len
    by simp
  show "trace (snd (checkConditionalHandlers sample_engine ''click'' (JObj []) new_world)) =
     [ConditionCalled ''click'' 0, ConsoleError (Exn ''boom''),
      ConditionCalled ''click'' 1, HandlerCalled ''click'' 1]"
    by (simp add: checkConditionalHandlers_def sample_engine_handlers
          evaluate_handler_def tryCatch_def bindE_def returnE_def ignore_def call_def
          console_error_def log_event_def throwing_def returning_def new_world_def)
qed

subsection \<open>Dispatch\<close>

lemma is_builtin_iff:
  "is_builtin n = (n = ''screenshot'' \<or> n = ''mouse_move'' \<or> n = ''click'' \<or> n = ''type'' \<or>
                   n = ''key'' \<or> n = ''scroll'')"
  by (simp add: is_builtin_def getDefaultTools_def)

lemma executeTool_custom:
  assumes "map_of (customTools (workflow ag)) name = Some tool"
  shows "executeTool ag name input w =
     (case triggerOnToolCall (hooks ag) name input w of
        (Inl e, w1) \<Rightarrow> (Inl e, w1)
      | (Inr m, w1) \<Rightarrow>
          (case call (CustomToolCalled name) (tool_function tool) [Val m] w1 of
             (Inl e, w2) \<Rightarrow>
               (Inr \<lparr>success = False, actionType = SCREENSHOT,
                     error = Some (String_of_exn e), data = JUndefined\<rparr>, w2)
           | (Inr v, w2) \<Rightarrow>
               (Inr \<lparr>success = True, actionType = SCREENSHOT, error = None,
                     data = JObj [(''result'', v)]\<rparr>, w2)))"
  using assms
  by (simp add: executeTool_def hasTool_def bindE_def tryCatch_def returnE_def
        WorkflowEngine_executeTool_def split: prod.splits sum.splits)

lemma executeTool_unknown:
  assumes "\<not> hasTool (workflow ag) name" and "\<not> is_builtin name"
  shows "executeTool ag name input w =
     (case triggerOnToolCall (hooks ag) name input w of
        (Inl e, w1) \<Rightarrow> (Inl e, w1)
      | (Inr m, w1) \<Rightarrow>
          (Inr \<lparr>success = False, actionType = SCREENSHOT,
                error = Some (''Unknown tool: '' @ name), data = JUndefined\<rparr>, w1))"
  using assms
  by (simp add: executeTool_def is_builtin_iff bindE_def returnE_def split: prod.splits sum.splits)

lemma executeTool_screenshot:
  assumes "\<not> hasTool (workflow ag) ''screenshot''"
  shows "executeTool ag ''screenshot'' input w =
     (case triggerOnToolCall (hooks ag) ''screenshot'' input w of
        (Inl e, w1) \<Rightarrow> (Inl e, w1)
      | (Inr m, w1) \<Rightarrow>
          (case takeScreenshot ag w1 of
             (Inl e, w2) \<Rightarrow> (Inl e, w2)
           | (Inr i, w2) \<Rightarrow>
               (Inr \<lparr>success = True, actionType = SCREENSHOT, error = None,
                     data = JObj [(''image'', JStr i)]\<rparr>, w2)))"
  using assms
  by (simp add: executeTool_def bindE_def returnE_def split: prod.splits sum.splits)

text \<open>
  C10. Every ActionResult that dispatch returns for a tool name with a registered
  custom tool (whether the tool returned or threw) or for a tool name that is neither
  custom nor built-in has action type \<open>screenshot\<close>, whatever the tool's name; so has
  the result of the built-in screenshot action. In the action history the three are
  alike by action type.
\<close>

theorem custom_and_unknown_results_say_screenshot:
  assumes "executeTool ag name input w = (Inr r, w')"
    and "hasTool (workflow ag) name \<or> \<not> is_builtin name \<or> name = ''screenshot''"
  shows "actionType r = SCREENSHOT"
proof (cases "hasTool (workflow ag) name")
  case True
  then obtain tool where "map_of (customTools (workflow ag)) name = Some tool"
    by (auto simp: hasTool_def)
  from executeTool_custom [OF this, of input w] assms(1) show ?thesis
    by (auto split: prod.splits sum.splits)
next
  case False
  show ?thesis
  proof (cases "is_builtin name")
    case True
    with False assms(2) have n: "name = ''screenshot''" by simp
    from executeTool_screenshot [of ag input w] False assms(1) show ?thesis
      unfolding n by (auto split: prod.splits sum.splits)
  next
    case nb: False
    from executeTool_unknown [OF False nb, of input w] assms(1) show ?thesis
      by (auto split: prod.splits sum.splits)
  qed
qed


lemma override_agent_tool:
  "map_of (customTools (workflow override_agent)) ''click'' =
     Some \<lparr>tool_name = ''click'', tool_description = ''a click of our own'',
           tool_inputSchema = JObj [(''type'', JStr ''object''), (''properties'', JObj [])],
           tool_function = returning (JStr ''clicked'')\<rparr>"
  by (simp add: override_agent_def registerTool_def new_WorkflowEngine_def)

lemma no_hooks_triggerOnToolCall:
  "onToolCall reg = [] \<Longrightarrow> triggerOnToolCall reg name input w = (Inr input, w)"
  by (simp add: triggerOnToolCall_def bindE_def returnE_def)

lemma override_agent_dispatch:
  "executeTool override_agent ''click'' (JObj [(''x'', JNum 5)]) new_world =
     (Inr \<lparr>success = True, actionType = SCREENSHOT, error = None,
           data = JObj [(''result'', JStr ''clicked'')]\<rparr>,
      new_world\<lparr>trace := [CustomToolCalled ''click'']\<rparr>)"
proof -
  have "onToolCall (hooks override_agent) = []"
    by (simp add: override_agent_def registerBeforeAction_def new_HookRegistry_def)
  then show ?thesis
    by (simp add: executeTool_custom [OF override_agent_tool] no_hooks_triggerOnToolCall
          call_def returning_def log_event_def new_world_def)
qed

theorem custom_and_unknown_results_say_screenshot_witness:
  "fst (executeTool override_agent ''click'' (JObj [(''x'', JNum 5)]) new_world) =
     Inr \<lparr>success = True, actionType = SCREENSHOT, error = None,
          data = JObj [(''result'', JStr ''clicked'')]\<rparr> \<and>
   hasTool (workflow override_agent) ''click'' \<and>
   actionType \<lparr>success = True, actionType = SCREENSHOT, error = None,
               data = JObj [(''result'', JStr ''clicked'')]\<rparr> = SCREENSHOT"
proof -
  have h: "hasTool (workflow override_agent) ''click''"
    by (simp add: hasTool_def override_agent_tool)
  then have "hasTool (workflow override_agent) ''click'' \<or> \<not> is_builtin ''click'' \<or>
        ''click'' = ''screenshot''" by simp
  from custom_and_unknown_results_say_screenshot [OF override_agent_dispatch this]
  show ?thesis using h override_agent_dispatch by simp
qed

text \<open>
  C9 (as amended). When a custom tool is registered under the dispatched name, also
  under the name of a built-in action, dispatch runs the on-tool-call chain and then,
  if that chain returns, calls the custom tool once on the chain's result and wraps
  what the tool returns, or the exception it throws, as an ActionResult; if a hook of
  the chain throws, dispatch throws and the tool is not called. In every case the
  calls made are on-tool-call hooks and the custom tool only: no before-action or
  after-action hook, no screen capture, no robot operation, no conditional handler.
\<close>

theorem custom_tool_takes_precedence:
  assumes "map_of (customTools (workflow ag)) name = Some tool"
  shows
    "(case triggerOnToolCall (hooks ag) name input w of
        (Inl e, w1) \<Rightarrow> executeTool ag name input w = (Inl e, w1)
      | (Inr m, w1) \<Rightarrow>
          (case call (CustomToolCalled name) (tool_function tool) [Val m] w1 of
             (Inl e, w2) \<Rightarrow>
               executeTool ag name input w =
                 (Inr \<lparr>success = False, actionType = SCREENSHOT,
                       error = Some (String_of_exn e), data = JUndefined\<rparr>, w2)
           | (Inr v, w2) \<Rightarrow>
               executeTool ag name input w =
                 (Inr \<lparr>success = True, actionType = SCREENSHOT, error = None,
                       data = JObj [(''result'', v)]\<rparr>, w2))) \<and>
     (\<exists>evs. trace (snd (executeTool ag name input w)) = trace w @ evs \<and>
        list_all (\<lambda>e. is_OnToolCall e \<or> e = CustomToolCalled name) evs)"
proof
  show "case triggerOnToolCall (hooks ag) name input w of
        (Inl e, w1) \<Rightarrow> executeTool ag name input w = (Inl e, w1)
      | (Inr m, w1) \<Rightarrow>
          (case call (CustomToolCalled name) (tool_function tool) [Val m] w1 of
             (Inl e, w2) \<Rightarrow>
               executeTool ag name input w =
                 (Inr \<lparr>success = False, actionType = SCREENSHOT,
                       error = Some (String_of_exn e), data = JUndefined\<rparr>, w2)
           | (Inr v, w2) \<Rightarrow>
               executeTool ag name input w =
                 (Inr \<lparr>success = True, actionType = SCREENSHOT, error = None,
                       data = JObj [(''result'', v)]\<rparr>, w2))"
    by (simp add: executeTool_custom [OF assms] split: prod.splits sum.splits)
  have "only_adds (\<lambda>e. is_OnToolCall e \<or> e = CustomToolCalled name)
          (bindE (triggerOnToolCall (hooks ag) name input)
             (\<lambda>m. tryCatch
                (bindE (WorkflowEngine_executeTool (workflow ag) name m)
                   (\<lambda>result. returnE \<lparr>success = True, actionType = SCREENSHOT, error = None,
                                     data = JObj [(''result'', result)]\<rparr>))
                (\<lambda>error. returnE \<lparr>success = False, actionType = SCREENSHOT,
                                 error = Some (String_of_exn error), data = JUndefined\<rparr>)))"
    by (intro only_adds_bindE only_adds_tryCatch only_adds_returnE
          only_adds_WorkflowEngine_executeTool
          only_adds_mono [OF only_adds_triggerOnToolCall]) simp_all
  moreover have "executeTool ag name input =
          (bindE (triggerOnToolCall (hooks ag) name input)
             (\<lambda>m. tryCatch
                (bindE (WorkflowEngine_executeTool (workflow ag) name m)
                   (\<lambda>result. returnE \<lparr>success = True, actionType = SCREENSHOT, error = None,
                                     data = JObj [(''result'', result)]\<rparr>))
                (\<lambda>error. returnE \<lparr>success = False, actionType = SCREENSHOT,
                                 error = Some (String_of_exn error), data = JUndefined\<rparr>)))"
    using assms by (simp add: executeTool_def hasTool_def)
  ultimately have "only_adds (\<lambda>e. is_OnToolCall e \<or> e = CustomToolCalled name)
      (executeTool ag name input)" by simp
  then show "\<exists>evs. trace (snd (executeTool ag name input w)) = trace w @ evs \<and>
        list_all (\<lambda>e. is_OnToolCall e \<or> e = CustomToolCalled name) evs"
    by (simp add: only_adds_def extends_def)
qed

theorem custom_tool_takes_precedence_witness:
  "executeTool override_agent ''click'' (JObj [(''x'', JNum 5)]) new_world =
     (Inr \<lparr>success = True, actionType = SCREENSHOT, error = None,
           data = JObj [(''result'', JStr ''clicked'')]\<rparr>,
      new_world\<lparr>trace := [CustomToolCalled ''click'']\<rparr>)"
proof -
  have "onToolCall (hooks override_agent) = []"
    by (simp add: override_agent_def registerBeforeAction_def new_HookRegistry_def)
  with custom_tool_takes_precedence [OF override_agent_tool, of "JObj [(''x'', JNum 5)]" new_world]
  show ?thesis
    by (simp add: no_hooks_triggerOnToolCall call_def returning_def log_event_def new_world_def)
qed

text \<open>
  C9 as stated fails: with a tool registered under \<open>click\<close> and an on-tool-call hook
  for \<open>click\<close> that throws, dispatch throws and the tool is never executed.
\<close>

theorem custom_tool_not_executed_counterexample:
  "hasTool (workflow vetoed_agent) ''click'' \<and>
   executeTool vetoed_agent ''click'' (JObj [(''x'', JNum 5)]) new_world =
     (Inl (Exn ''vetoed''), new_world\<lparr>trace := [HookCalled (OnToolCall ''click'')]\<rparr>)"
  by (simp add: vetoed_agent_def override_agent_def registerTool_def new_WorkflowEngine_def
        hasTool_def executeTool_def triggerOnToolCall_def registerOnToolCall_def
        new_HookRegistry_def bindE_def returnE_def call_def throwing_def log_event_def
        new_world_def)

text \<open>
  C7 (as amended). For a tool name that is neither built-in nor custom, dispatch runs
  the on-tool-call chain and then, if that chain returns, yields the failed
  ActionResult whose error is \<open>Unknown tool: \<close> followed by the name; if a hook of the
  chain throws, dispatch throws that exception. In both cases the only callbacks
  called are on-tool-call hooks: no before-action hook, no after-action hook, no
  conditional handler.
\<close>

theorem unknown_tool_fails:
  assumes "\<not> hasTool (workflow ag) name" and "\<not> is_builtin name"
  shows
    "(case triggerOnToolCall (hooks ag) name input w of
        (Inl e, w1) \<Rightarrow> executeTool ag name input w = (Inl e, w1)
      | (Inr m, w1) \<Rightarrow>
          executeTool ag name input w =
            (Inr \<lparr>success = False, actionType = SCREENSHOT,
                  error = Some (''Unknown tool: '' @ name), data = JUndefined\<rparr>, w1)) \<and>
     (\<exists>evs. trace (snd (executeTool ag name input w)) = trace w @ evs \<and>
        list_all is_OnToolCall evs)"
proof
  show "case triggerOnToolCall (hooks ag) name input w of
        (Inl e, w1) \<Rightarrow> executeTool ag name input w = (Inl e, w1)
      | (Inr m, w1) \<Rightarrow>
          executeTool ag name input w =
            (Inr \<lparr>success = False, actionType = SCREENSHOT,
                  error = Some (''Unknown tool: '' @ name), data = JUndefined\<rparr>, w1)"
    by (simp add: executeTool_unknown [OF assms] split: prod.splits sum.splits)
  obtain r w1 where t: "triggerOnToolCall (hooks ag) name input w = (r, w1)"
    by (cases "triggerOnToolCall (hooks ag) name input w")
  have "snd (executeTool ag name input w) = w1"
    using t by (simp add: executeTool_unknown [OF assms] split: sum.splits)
  moreover have "extends is_OnToolCall w w1"
    using only_addsD [OF only_adds_triggerOnToolCall t] .
  ultimately show "\<exists>evs. trace (snd (executeTool ag name input w)) = trace w @ evs \<and>
        list_all is_OnToolCall evs"
    by (simp add: extends_def)
qed

theorem unknown_tool_fails_witness:
  "executeTool sample_agent ''frobnicate'' (JObj []) new_world =
     (Inr \<lparr>success = False, actionType = SCREENSHOT,
           error = Some ''Unknown tool: frobnicate'', data = JUndefined\<rparr>, new_world)"
proof -
  have 1: "\<not> hasTool (workflow sample_agent) ''frobnicate''"
    by (simp add: hasTool_def sample_agent_def new_ComputerUseAgent_def new_WorkflowEngine_def)
  have 2: "\<not> is_builtin ''frobnicate''"
    by (simp add: is_builtin_iff)
  have "onToolCall (hooks sample_agent) = []"
    by (simp add: sample_agent_def new_ComputerUseAgent_def new_HookRegistry_def)
  with unknown_tool_fails [OF 1 2, of "JObj []" new_world] show ?thesis
    by (simp add: no_hooks_triggerOnToolCall)
qed

text \<open>
  C7 as stated fails: with a wildcard on-tool-call hook that throws, dispatching the
  unknown name \<open>frobnicate\<close> throws and yields no ActionResult.
\<close>

theorem unknown_tool_no_result_counterexample:
  "\<not> hasTool (workflow guarded_agent) ''frobnicate'' \<and> \<not> is_builtin ''frobnicate'' \<and>
   executeTool guarded_agent ''frobnicate'' (JObj []) new_world =
     (Inl (Exn ''tool calls are disabled''), new_world\<lparr>trace := [HookCalled (OnToolCall ''*'')]\<rparr>)"
  by (simp add: guarded_agent_def sample_agent_def new_ComputerUseAgent_def
        new_WorkflowEngine_def hasTool_def is_builtin_iff executeTool_def triggerOnToolCall_def
        registerOnToolCall_def new_HookRegistry_def bindE_def returnE_def call_def
        throwing_def log_event_def new_world_def)






lemma dry_result_fields:
  "r = dry_result t \<Longrightarrow>
   success r \<and> error r = None \<and> data r = JObj [(''dryRun'', JBool True)]"
  by (simp add: dry_result_def dryRun_data_def)














subsection \<open>The loop of run\<close>

lemma grows_refl: "grows P w w"
  by (simp add: grows_def)

lemma grows_trans: "grows P w w1 \<Longrightarrow> grows P w1 w2 \<Longrightarrow> grows P w w2"
  by (auto simp: grows_def)

lemma extends_grows: "extends P w w' \<Longrightarrow> grows P w w'"
  by (simp add: extends_def grows_def)

lemma truthy_get_prop: "truthy v \<Longrightarrow> \<exists>d. get_prop v k = Inr d"
  by (cases v) simp_all

lemma toolResultContent_returns: "\<exists>c. toolResultContent ag n r = Inr c"
  using truthy_get_prop [of "data r" "''image''"]
  by (auto simp: toolResultContent_def)

lemma process_block_tool_use:
  "process_block ag (ToolUseBlock i n v) acc w =
     (case executeTool ag n v w of
        (Inl e, w1) \<Rightarrow> (Inl e, w1)
      | (Inr r, w1) \<Rightarrow>
          (Inr (acc @ [tool_result_for ag (i, n, v) r]),
           w1\<lparr>ctx := (ctx w1)\<lparr>actionHistory := actionHistory (ctx w1) @ [r]\<rparr>\<rparr>))"
proof -
  obtain r1 w1 where e: "executeTool ag n v w = (r1, w1)" by (cases "executeTool ag n v w")
  show ?thesis
  proof (cases r1)
    case (Inl ex)
    with e show ?thesis by (simp add: bindE_def)
  next
    case (Inr r)
    obtain c where "toolResultContent ag n r = Inr c"
      using toolResultContent_returns by blast
    with e Inr show ?thesis by (simp add: bindE_def returnE_def)
  qed
qed

lemma process_blocks_dispatch_all:
  "process_blocks ag bs acc w =
     (case dispatch_all ag (tool_uses bs) w of
        (Inl e, w') \<Rightarrow> (Inl e, w')
      | (Inr rs, w') \<Rightarrow> (Inr (acc @ map2 (tool_result_for ag) (tool_uses bs) rs), w'))"
proof (induction bs arbitrary: acc w)
  case Nil
  show ?case by simp
next
  case (Cons b bs)
  show ?case
  proof (cases "\<exists>i n v. b = ToolUseBlock i n v")
    case True
    then obtain i n v where b: "b = ToolUseBlock i n v" by blast
    show ?thesis
      unfolding b
      by (simp add: process_block_tool_use Cons.IH del: process_block.simps
            split: prod.splits sum.splits)
  next
    case False
    then have tu: "tool_uses (b # bs) = tool_uses bs"
      and pb: "process_block ag b acc = returnE acc"
      by (cases b; simp)+
    show ?thesis
      unfolding tu by (simp add: pb returnE_def Cons.IH)
  qed
qed

lemma dispatch_all_frame:
  "dispatch_all ag us w = (res, w') \<Longrightarrow>
     grows (dispatch_event ag) w w' \<and> messages w' = messages w \<and>
     (\<forall>rs. res = Inr rs \<longrightarrow>
        length rs = length us \<and> actionHistory (ctx w') = actionHistory (ctx w) @ rs)"
proof (induction us arbitrary: w res w')
  case Nil
  then show ?case by (auto simp: grows_refl)
next
  case (Cons u us)
  obtain i n v where u: "u = (i, n, v)" by (cases u)
  obtain r1 w1 where e: "executeTool ag n v w = (r1, w1)" by (cases "executeTool ag n v w")
  have x: "extends (dispatch_event ag) w w1"
    using only_addsD [OF only_adds_executeTool e] .
  show ?case
  proof (cases r1)
    case (Inl ex)
    with Cons.prems u e x show ?thesis
      by (auto simp: extends_def grows_def)
  next
    case (Inr r)
    let ?w1 = "w1\<lparr>ctx := (ctx w1)\<lparr>actionHistory := actionHistory (ctx w1) @ [r]\<rparr>\<rparr>"
    obtain r2 w2 where d: "dispatch_all ag us ?w1 = (r2, w2)"
      by (cases "dispatch_all ag us ?w1")
    note ih = Cons.IH [OF d]
    from Cons.prems u e Inr d have res: "w' = w2"
      "res = (case r2 of Inl e \<Rightarrow> Inl e | Inr rs \<Rightarrow> Inr (r # rs))"
      by (auto split: sum.splits)
    have g: "grows (dispatch_event ag) w ?w1"
      using x by (auto simp: extends_def grows_def)
    from ih g have "grows (dispatch_event ag) w w2" by (blast intro: grows_trans)
    moreover have "messages w2 = messages w" using ih x by (simp add: extends_def)
    moreover have "\<forall>rs. res = Inr rs \<longrightarrow>
        length rs = length (u # us) \<and> actionHistory (ctx w2) = actionHistory (ctx w) @ rs"
      using ih x res by (auto simp: extends_def split: sum.splits)
    ultimately show ?thesis using res by simp
  qed
qed

lemma triggerOnIterationEnd_extends:
  "triggerOnIterationEnd reg i w = (r, w') \<Longrightarrow> extends (dispatch_event ag) w w'"
proof -
  have "only_adds (dispatch_event ag) (triggerOnIterationEnd reg i)"
    unfolding triggerOnIterationEnd_def
    by (intro only_adds_forEach only_adds_ignore only_adds_call) (simp add: dispatch_event_def)
  then show "triggerOnIterationEnd reg i w = (r, w') \<Longrightarrow> extends (dispatch_event ag) w w'"
    by (rule only_addsD)
qed

lemma triggerOnIterationStart_extends:
  "triggerOnIterationStart reg i w = (r, w') \<Longrightarrow> extends (dispatch_event ag) w w'"
proof -
  have "only_adds (dispatch_event ag) (triggerOnIterationStart reg i)"
    unfolding triggerOnIterationStart_def
    by (intro only_adds_forEach only_adds_ignore only_adds_call) (simp add: dispatch_event_def)
  then show "triggerOnIterationStart reg i w = (r, w') \<Longrightarrow> extends (dispatch_event ag) w w'"
    by (rule only_addsD)
qed

lemma try_block_tool_use:
  assumes "client ag (count_list (trace w) ServiceCalled) (request_of ag sys w) = Inr resp"
    and "stop_reason resp = ''tool_use''"
  shows "try_block ag sys i w =
     (case dispatch_all ag (tool_uses (response_content resp))
             ((log_event ServiceCalled w)
                \<lparr>messages := messages w @
                   [\<lparr>role = ''assistant'', content = response_content resp\<rparr>]\<rparr>) of
        (Inl e, w1) \<Rightarrow> (Inl e, w1)
      | (Inr rs, w1) \<Rightarrow>
          (case triggerOnIterationEnd (hooks ag) i
                  (w1\<lparr>messages := messages w1 @
                        [\<lparr>role = ''user'',
                          content = map2 (tool_result_for ag)
                                      (tool_uses (response_content resp)) rs\<rparr>]\<rparr>) of
             (Inl e, w2) \<Rightarrow> (Inl e, w2)
           | (Inr u, w2) \<Rightarrow> (Inr Continue, w2)))"
  using assms
  by (simp add: try_block_def messages_create_def request_of_def bindE_def returnE_def
        push_message_def process_blocks_dispatch_all log_event_def
        split: prod.splits sum.splits)


lemma tool_use_ids:
  "length rs = length us \<Longrightarrow>
   map tool_use_id (map2 (tool_result_for ag) us rs) = map (Some \<circ> fst) us"
  by (induction rs us rule: list_induct2) auto



lemmas eval_defs =
  run_def run_loop.simps try_block_def
  new_ComputerUseAgent_def new_ActionExecutor_def new_WorkflowEngine_def
  new_HookRegistry_def default_config_def sample_region_def sample_service_def
  two_tools_def screen_ok_def robot_ok_def stringify_stub_def throwing_def returning_def
  registerOnToolCall_def registerBeforeAction_def registerTool_def
  takeScreenshot_def captureBase64_def
  triggerBeforeScreenshot_def triggerAfterScreenshot_def triggerOnIterationStart_def
  triggerOnIterationEnd_def triggerOnToolCall_def triggerBeforeAction_def
  triggerAfterAction_def checkConditionalHandlers_def messages_create_def
  request_of_def push_message_def executeTool_def hasTool_def builtin_action_def
  read_prop_def lift_def click_def click_func_def checkAllowed_def
  executeWithSafety_def rateLimit_def sleep_def robot_op_def toolResultContent_def
  bindE_def returnE_def tryCatch_def ignore_def call_def log_event_def
  new_world_def new_AgentContext_def failed_def completed_def Let_def upt_rec

text \<open>
  C1 (as amended). Take a pass of the loop in which the reasoning service answers with
  the stop signal \<open>tool_use\<close>, and suppose the \<open>try\<close> block of the pass completes
  without an exception. Then the tool uses of the reply were dispatched one after the
  other in their order of appearance, with results \<open>rs\<close>, one per tool use; the
  action history has gained exactly \<open>rs\<close>, in that order; and the messages have
  gained exactly the assistant message and one user message whose content is one
  tool-result block per tool use, in the same order, each carrying the id of its tool
  use and the content built from its result. The pass ends with \<open>Continue\<close>, and the
  request of the next pass, made after its iteration-start hooks, carries exactly
  these messages.
\<close>

theorem tool_results_pair_with_tool_uses:
  assumes "client ag (count_list (trace w) ServiceCalled) (request_of ag sys w) = Inr resp"
    and "stop_reason resp = ''tool_use''"
    and "try_block ag sys i w = (Inr x, w')"
  shows
    "\<exists>rs. length rs = length (tool_uses (response_content resp)) \<and>
       fst (dispatch_all ag (tool_uses (response_content resp))
              ((log_event ServiceCalled w)
                 \<lparr>messages := messages w @
                    [\<lparr>role = ''assistant'', content = response_content resp\<rparr>]\<rparr>)) = Inr rs \<and>
       actionHistory (ctx w') = actionHistory (ctx w) @ rs \<and>
       messages w' = messages w @
         [\<lparr>role = ''assistant'', content = response_content resp\<rparr>,
          \<lparr>role = ''user'',
           content = map2 (tool_result_for ag) (tool_uses (response_content resp)) rs\<rparr>] \<and>
       map tool_use_id (map2 (tool_result_for ag) (tool_uses (response_content resp)) rs) =
         map (Some \<circ> fst) (tool_uses (response_content resp)) \<and>
       x = Continue \<and>
       (\<forall>r1 w1.
          triggerOnIterationStart (hooks ag) (Suc i)
            (log_event (LoopPass (Suc i)) (w'\<lparr>ctx := (ctx w')\<lparr>iteration := Suc i\<rparr>\<rparr>)) =
            (r1, w1) \<longrightarrow>
          req_messages (request_of ag sys w1) = messages w')"
proof -
  let ?us = "tool_uses (response_content resp)"
  let ?w0 = "(log_event ServiceCalled w)
               \<lparr>messages := messages w @
                  [\<lparr>role = ''assistant'', content = response_content resp\<rparr>]\<rparr>"
  obtain r1 w1 where d: "dispatch_all ag ?us ?w0 = (r1, w1)"
    by (cases "dispatch_all ag ?us ?w0")
  note tb = try_block_tool_use [OF assms(1,2), of i]
  from tb d assms(3) obtain rs where r1: "r1 = Inr rs"
    by (cases r1) auto
  let ?w1 = "w1\<lparr>messages := messages w1 @
                 [\<lparr>role = ''user'', content = map2 (tool_result_for ag) ?us rs\<rparr>]\<rparr>"
  obtain r2 w2 where e: "triggerOnIterationEnd (hooks ag) i ?w1 = (r2, w2)"
    by (cases "triggerOnIterationEnd (hooks ag) i ?w1")
  from tb d r1 e assms(3) have w2: "w' = w2" and x: "x = Continue"
    by (auto split: sum.splits)
  note fr = dispatch_all_frame [OF d]
  from fr r1 have len: "length rs = length ?us"
    and hist: "actionHistory (ctx w1) = actionHistory (ctx ?w0) @ rs"
    and msgs: "messages w1 = messages ?w0"
    by auto
  note ex = triggerOnIterationEnd_extends [OF e, of ag]
  have "actionHistory (ctx w') = actionHistory (ctx w) @ rs"
    using ex hist w2 by (simp add: extends_def log_event_def)
  moreover have "messages w' = messages w @
         [\<lparr>role = ''assistant'', content = response_content resp\<rparr>,
          \<lparr>role = ''user'', content = map2 (tool_result_for ag) ?us rs\<rparr>]"
    using ex msgs w2 by (simp add: extends_def log_event_def)
  moreover have "fst (dispatch_all ag ?us ?w0) = Inr rs"
    using d r1 by simp
  moreover have "\<forall>r1 w1.
          triggerOnIterationStart (hooks ag) (Suc i)
            (log_event (LoopPass (Suc i)) (w'\<lparr>ctx := (ctx w')\<lparr>iteration := Suc i\<rparr>\<rparr>)) =
            (r1, w1) \<longrightarrow>
          req_messages (request_of ag sys w1) = messages w'"
    by (auto simp: request_of_def extends_def log_event_def
          dest!: triggerOnIterationStart_extends [where ag = ag])
  ultimately show ?thesis
    using len x tool_use_ids [OF len, of ag] by blast
qed

lemma sample_try_block:
  "fst (try_block sample_agent ''sys'' 0 new_world) = Inr Continue"
  by (simp add: eval_defs sample_agent_def)

theorem tool_results_pair_with_tool_uses_witness:
  "\<exists>rs. length rs = 2 \<and>
      actionHistory (ctx (snd (try_block sample_agent ''sys'' 0 new_world))) = rs \<and>
      messages (snd (try_block sample_agent ''sys'' 0 new_world)) =
        [\<lparr>role = ''assistant'', content = response_content two_tools\<rparr>,
         \<lparr>role = ''user'',
          content = map2 (tool_result_for sample_agent)
                      (tool_uses (response_content two_tools)) rs\<rparr>] \<and>
      map tool_use_id (map2 (tool_result_for sample_agent)
                         (tool_uses (response_content two_tools)) rs) =
        [Some ''a'', Some ''b'']"
proof -
  have 1: "client sample_agent (count_list (trace new_world) ServiceCalled)
             (request_of sample_agent ''sys'' new_world) = Inr two_tools"
    by (simp add: sample_agent_def new_ComputerUseAgent_def sample_service_def)
  have 2: "stop_reason two_tools = ''tool_use''"
    by (simp add: two_tools_def)
  have 3: "try_block sample_agent ''sys'' 0 new_world =
             (Inr Continue, snd (try_block sample_agent ''sys'' 0 new_world))"
    using sample_try_block by (simp add: prod_eq_iff)
  have 4: "tool_uses (response_content two_tools) =
             [(''a'', ''click'', JObj [(''x'', JNum 900), (''y'', JNum 700)]),
              (''b'', ''frobnicate'', JObj [])]"
    by (simp add: two_tools_def)
  from tool_results_pair_with_tool_uses [OF 1 2 3] show ?thesis
    unfolding 4 by (auto simp: new_world_def new_AgentContext_def)
qed

text \<open>
  C1 as stated fails: the reply has two tool uses, \<open>a\<close> and \<open>b\<close>; the on-tool-call
  hook of the second one throws; the run ends with a failure record, no user message
  with tool results has been appended, and the action history has gained one entry.
\<close>

theorem tool_result_missing_counterexample:
  "stop_reason two_tools = ''tool_use'' \<and>
   length (tool_uses (response_content two_tools)) = 2 \<and>
   fst (run picky_agent ''goal'' 2 None new_world) =
     Inr \<lparr>r_success = False, r_error = Some ''vetoed'', r_iteration = Some 0,
          r_iterations = None, r_state = [], r_actionHistory = None\<rparr> \<and>
   messages (snd (run picky_agent ''goal'' 2 None new_world)) =
     [\<lparr>role = ''user'', content = [ImageBlock (JStr ''iVBORw0KGgo=''), TextBlock ''goal'']\<rparr>,
      \<lparr>role = ''assistant'', content = response_content two_tools\<rparr>] \<and>
   length (actionHistory (ctx (snd (run picky_agent ''goal'' 2 None new_world)))) = 1"
  by (simp add: eval_defs picky_agent_def sample_agent_def)

lemma dispatch_events_quiet:
  "list_all (dispatch_event ag) evs \<Longrightarrow>
   count_list evs ServiceCalled = 0 \<and> filter is_LoopPass evs = []"
proof (induction evs)
  case Nil
  show ?case by simp
next
  case (Cons e evs)
  then show ?case by (cases e) (auto simp: dispatch_event_def)
qed

lemma try_block_always_tool_use:
  assumes "\<forall>k req. \<exists>resp. client ag k req = Inr resp \<and> stop_reason resp = ''tool_use''"
    and "try_block ag sys i w = (res, w')"
  shows "res \<noteq> Inr Break \<and> iteration (ctx w') = iteration (ctx w) \<and>
     (\<exists>evs. trace w' = trace w @ ServiceCalled # evs \<and> list_all (dispatch_event ag) evs)"
proof -
  from assms(1) obtain resp
    where c: "client ag (count_list (trace w) ServiceCalled) (request_of ag sys w) = Inr resp"
      and s: "stop_reason resp = ''tool_use''"
    by blast
  let ?us = "tool_uses (response_content resp)"
  let ?w0 = "(log_event ServiceCalled w)
               \<lparr>messages := messages w @
                  [\<lparr>role = ''assistant'', content = response_content resp\<rparr>]\<rparr>"
  obtain r1 w1 where d: "dispatch_all ag ?us ?w0 = (r1, w1)"
    by (cases "dispatch_all ag ?us ?w0")
  note tb = try_block_tool_use [OF c s, of i]
  have g1: "grows (dispatch_event ag) ?w0 w1"
    using dispatch_all_frame [OF d] by simp
  show ?thesis
  proof (cases r1)
    case (Inl e)
    with tb d assms(2) have "res = Inl e" "w' = w1" by auto
    with g1 show ?thesis by (auto simp: grows_def log_event_def)
  next
    case (Inr rs)
    let ?w1 = "w1\<lparr>messages := messages w1 @
                 [\<lparr>role = ''user'', content = map2 (tool_result_for ag) ?us rs\<rparr>]\<rparr>"
    obtain r2 w2 where e: "triggerOnIterationEnd (hooks ag) i ?w1 = (r2, w2)"
      by (cases "triggerOnIterationEnd (hooks ag) i ?w1")
    from tb d Inr e assms(2) have res: "w' = w2" "res \<noteq> Inr Break"
      by (auto split: sum.splits)
    have "grows (dispatch_event ag) ?w1 w2"
      using triggerOnIterationEnd_extends [OF e, of ag] by (rule extends_grows)
    moreover have "grows (dispatch_event ag) ?w0 ?w1"
      using g1 by (simp add: grows_def)
    ultimately have "grows (dispatch_event ag) ?w0 w2"
      by (blast intro: grows_trans)
    with res show ?thesis by (auto simp: grows_def log_event_def)
  qed
qed

lemma run_loop_done: "\<not> int i < n \<Longrightarrow> run_loop ag sys n i w = (Inr (completed w), w)"
  by (subst run_loop.simps) simp

lemma run_loop_step:
  "int i < n \<Longrightarrow>
   run_loop ag sys n i w =
     (case triggerOnIterationStart (hooks ag) i
             (log_event (LoopPass i) (w\<lparr>ctx := (ctx w)\<lparr>iteration := i\<rparr>\<rparr>)) of
        (Inl e, w1) \<Rightarrow> (Inl e, w1)
      | (Inr u, w1) \<Rightarrow>
          (case try_block ag sys i w1 of
             (Inl e, w2) \<Rightarrow> (Inr (failed e i w2), w2)
           | (Inr Break, w2) \<Rightarrow> (Inr (completed w2), w2)
           | (Inr Continue, w2) \<Rightarrow> run_loop ag sys n (Suc i) w2))"
  by (subst run_loop.simps) simp

lemma run_loop_result_shape:
  "run_loop ag sys n i w = (Inr r, w') \<Longrightarrow>
     (\<exists>w1. r = completed w1) \<or> (\<exists>e j w1. j < nat n \<and> r = failed e j w1)"
proof (induction "nat (n - int i)" arbitrary: i w)
  case 0
  then have "\<not> int i < n" by simp
  with "0.prems" show ?case by (auto simp: run_loop_done)
next
  case (Suc k)
  then have lt: "int i < n" and k: "k = nat (n - int (Suc i))" by simp_all
  let ?w0 = "log_event (LoopPass i) (w\<lparr>ctx := (ctx w)\<lparr>iteration := i\<rparr>\<rparr>)"
  obtain r1 w1 where s: "triggerOnIterationStart (hooks ag) i ?w0 = (r1, w1)"
    by (cases "triggerOnIterationStart (hooks ag) i ?w0")
  obtain r2 w2 where t: "try_block ag sys i w1 = (r2, w2)"
    by (cases "try_block ag sys i w1")
  from lt have il: "i < nat n" by simp
  from Suc.prems s t have
    "(\<exists>e. r = failed e i w2) \<or> r = completed w2 \<or> run_loop ag sys n (Suc i) w2 = (Inr r, w')"
    by (auto simp: run_loop_step [OF lt] split: sum.splits loop_exit.splits)
  then show ?case
    using Suc.hyps(1) [OF k] il by blast
qed

lemma run_loop_always_tool_use:
  assumes "\<forall>k req. \<exists>resp. client ag k req = Inr resp \<and> stop_reason resp = ''tool_use''"
  shows "run_loop ag sys n i w = (res, w') \<Longrightarrow>
     \<exists>evs. trace w' = trace w @ evs \<and> count_list evs ServiceCalled \<le> nat (n - int i) \<and>
       (\<forall>r. res = Inr r \<and> r_success r \<longrightarrow>
          count_list evs ServiceCalled = nat (n - int i) \<and>
          filter is_LoopPass evs = map LoopPass [i..<nat n] \<and>
          r_iterations r = Some (if int i < n then nat n else iteration (ctx w) + 1))"
proof (induction "nat (n - int i)" arbitrary: i w res w')
  case 0
  then have "\<not> int i < n" by simp
  with "0.prems" have "res = Inr (completed w)" "w' = w"
    by (auto simp: run_loop_done)
  with \<open>\<not> int i < n\<close> show ?case by (simp add: completed_def)
next
  case (Suc k)
  then have lt: "int i < n" and k: "k = nat (n - int (Suc i))" by simp_all
  let ?w0 = "log_event (LoopPass i) (w\<lparr>ctx := (ctx w)\<lparr>iteration := i\<rparr>\<rparr>)"
  obtain r1 w1 where s: "triggerOnIterationStart (hooks ag) i ?w0 = (r1, w1)"
    by (cases "triggerOnIterationStart (hooks ag) i ?w0")
  have "extends (dispatch_event ag) ?w0 w1"
    using triggerOnIterationStart_extends [OF s] .
  then obtain evs1 where 1: "trace w1 = trace w @ LoopPass i # evs1"
    "list_all (dispatch_event ag) evs1" "iteration (ctx w1) = i"
    by (auto simp: extends_def log_event_def)
  note q1 = dispatch_events_quiet [OF 1(2)]
  show ?case
  proof (cases r1)
    case (Inl e)
    with Suc.prems s have "res = Inl e" "w' = w1"
      by (auto simp: run_loop_step [OF lt])
    with 1 q1 show ?thesis by simp
  next
    case (Inr u)
    obtain r2 w2 where t: "try_block ag sys i w1 = (r2, w2)"
      by (cases "try_block ag sys i w1")
    from try_block_always_tool_use [OF assms t] obtain evs2
      where 2: "r2 \<noteq> Inr Break" "iteration (ctx w2) = iteration (ctx w1)"
        "trace w2 = trace w1 @ ServiceCalled # evs2" "list_all (dispatch_event ag) evs2"
      by blast
    note q2 = dispatch_events_quiet [OF 2(4)]
    show ?thesis
    proof (cases r2)
      case (Inl e)
      with Suc.prems s Inr t have "res = Inr (failed e i w2)" "w' = w2"
        by (auto simp: run_loop_step [OF lt])
      with 1 2 q1 q2 lt show ?thesis by (simp add: failed_def)
    next
      case r2: (Inr x)
      with 2(1) have "x = Continue" by (cases x) simp_all
      with Suc.prems s Inr t r2 have rec: "run_loop ag sys n (Suc i) w2 = (res, w')"
        by (simp add: run_loop_step [OF lt])
      from Suc.hyps(1) [OF k rec] obtain evs3
        where 3: "trace w' = trace w2 @ evs3"
          "count_list evs3 ServiceCalled \<le> nat (n - int (Suc i))"
          "\<forall>r. res = Inr r \<and> r_success r \<longrightarrow>
             count_list evs3 ServiceCalled = nat (n - int (Suc i)) \<and>
             filter is_LoopPass evs3 = map LoopPass [Suc i..<nat n] \<and>
             r_iterations r =
               Some (if int (Suc i) < n then nat n else iteration (ctx w2) + 1)"
        by blast
      let ?evs = "LoopPass i # evs1 @ ServiceCalled # evs2 @ evs3"
      have tr: "trace w' = trace w @ ?evs" using 1 2 3 by simp
      have cnt: "count_list ?evs ServiceCalled = Suc (count_list evs3 ServiceCalled)"
        using q1 q2 by (simp add: count_list_append)
      have lp: "filter is_LoopPass ?evs = LoopPass i # filter is_LoopPass evs3"
        using q1 q2 by simp
      have up: "[i..<nat n] = i # [Suc i..<nat n]"
        using lt by (subst upt_rec) simp
      have it: "(if int (Suc i) < n then nat n else iteration (ctx w2) + 1) = nat n"
        using lt 1(3) 2(2) by auto
      have le: "count_list ?evs ServiceCalled \<le> nat (n - int i)"
        using cnt 3(2) lt by simp
      have "\<forall>r. res = Inr r \<and> r_success r \<longrightarrow>
          count_list ?evs ServiceCalled = nat (n - int i) \<and>
          filter is_LoopPass ?evs = map LoopPass [i..<nat n] \<and>
          r_iterations r = Some (if int i < n then nat n else iteration (ctx w) + 1)"
        using 3(3) cnt lp up it lt by auto
      with tr le show ?thesis by blast
    qed
  qed
qed

lemma passes_return_completed:
  "passes_return ag sys n i w \<Longrightarrow> \<exists>w1. run_loop ag sys n i w = (Inr (completed w1), snd (run_loop ag sys n i w))"
proof (induction "nat (n - int i)" arbitrary: i w)
  case 0
  then have "\<not> int i < n" by simp
  then show ?case by (auto simp: run_loop_done)
next
  case (Suc k)
  then have lt: "int i < n" and k: "k = nat (n - int (Suc i))" by simp_all
  let ?w0 = "log_event (LoopPass i) (w\<lparr>ctx := (ctx w)\<lparr>iteration := i\<rparr>\<rparr>)"
  obtain r1 w1 where s: "triggerOnIterationStart (hooks ag) i ?w0 = (r1, w1)"
    by (cases "triggerOnIterationStart (hooks ag) i ?w0")
  obtain r2 w2 where t: "try_block ag sys i w1 = (r2, w2)"
    by (cases "try_block ag sys i w1")
  from Suc.prems lt s t have
    "r1 = Inr () \<and> (r2 = Inr Break \<or> r2 = Inr Continue \<and> passes_return ag sys n (Suc i) w2)"
    by (subst (asm) passes_return.simps) (auto split: sum.splits loop_exit.splits)
  then show ?case
    using Suc.hyps(1) [OF k, of w2] s t
    by (auto simp: run_loop_step [OF lt])
qed

text \<open>
  C3 (as amended). Let the reasoning service answer every request with the stop signal
  \<open>tool_use\<close>, and let \<open>max_iterations = n \<ge> 1\<close>. Then \<open>run\<close> sends at most \<open>n\<close>
  requests to the reasoning service. If nothing throws during the run (the first
  screenshot, the iteration-start hooks and the \<open>try\<close> block of every pass that is
  made), then \<open>run\<close> returns a result with \<open>success = true\<close>, no error and
  \<open>iterations = n\<close>, after exactly \<open>n\<close> loop passes, numbered \<open>0\<close> to \<open>n - 1\<close>, and
  exactly \<open>n\<close> requests. In any case, a result whose success flag is true comes after
  exactly \<open>n\<close> passes and \<open>n\<close> requests and reports \<open>iterations = n\<close>, and a result
  whose success flag is false is the failure record of an exception caught in a pass:
  it carries the error and the number, below \<open>n\<close>, of that pass.
\<close>

theorem iteration_bound:
  assumes "\<forall>k req. \<exists>resp. client ag k req = Inr resp \<and> stop_reason resp = ''tool_use''"
    and "1 \<le> n"
  shows
    "\<exists>evs. trace (snd (run ag goal n sp w)) = trace w @ evs \<and>
       count_list evs ServiceCalled \<le> nat n \<and>
       (nothing_throws ag goal n sp w \<longrightarrow>
          (\<exists>r. fst (run ag goal n sp w) = Inr r \<and> r_success r \<and> r_error r = None \<and>
             r_iterations r = Some (nat n)) \<and>
          count_list evs ServiceCalled = nat n \<and>
          filter is_LoopPass evs = map LoopPass [0..<nat n]) \<and>
       (\<forall>r. fst (run ag goal n sp w) = Inr r \<and> r_success r \<longrightarrow>
          count_list evs ServiceCalled = nat n \<and>
          filter is_LoopPass evs = map LoopPass [0..<nat n] \<and>
          r_iterations r = Some (nat n)) \<and>
       (\<forall>r. fst (run ag goal n sp w) = Inr r \<and> \<not> r_success r \<longrightarrow>
          r_error r \<noteq> None \<and> (\<exists>j. r_iteration r = Some j \<and> j < nat n))"
proof -
  let ?w0 = "w\<lparr>ctx := new_AgentContext, messages := []\<rparr>"
  obtain r1 w1 where s: "takeScreenshot ag ?w0 = (r1, w1)"
    by (cases "takeScreenshot ag ?w0")
  have "only_adds (dispatch_event ag) (takeScreenshot ag)"
    by (rule only_adds_takeScreenshot) (simp add: dispatch_event_def)
  from only_addsD [OF this s] obtain evs1
    where 1: "trace w1 = trace w @ evs1" "list_all (dispatch_event ag) evs1"
    by (auto simp: extends_def)
  note q1 = dispatch_events_quiet [OF 1(2)]
  show ?thesis
  proof (cases r1)
    case (Inl e)
    with s have "run ag goal n sp w = (Inl e, w1)" "\<not> nothing_throws ag goal n sp w"
      by (simp_all add: run_def nothing_throws_def)
    with 1 q1 show ?thesis by simp
  next
    case (Inr img)
    let ?sys = "case sp of None \<Rightarrow> default_system
                | Some s \<Rightarrow> if s = [] then default_system else s"
    let ?w1 = "w1\<lparr>messages := messages w1 @
                 [\<lparr>role = ''user'', content = [ImageBlock (JStr img), TextBlock goal]\<rparr>]\<rparr>"
    obtain res w' where l: "run_loop ag ?sys n 0 ?w1 = (res, w')"
      by (cases "run_loop ag ?sys n 0 ?w1")
    from s Inr l have r: "run ag goal n sp w = (res, w')" by (simp add: run_def)
    from s Inr have nt: "nothing_throws ag goal n sp w = passes_return ag ?sys n 0 ?w1"
      by (simp add: nothing_throws_def)
    from run_loop_always_tool_use [OF assms(1) l] obtain evs2
      where 2: "trace w' = trace ?w1 @ evs2" "count_list evs2 ServiceCalled \<le> nat (n - int 0)"
        "\<forall>r. res = Inr r \<and> r_success r \<longrightarrow>
           count_list evs2 ServiceCalled = nat (n - int 0) \<and>
           filter is_LoopPass evs2 = map LoopPass [0..<nat n] \<and>
           r_iterations r = Some (if int 0 < n then nat n else iteration (ctx ?w1) + 1)"
      by blast
    have shape: "\<forall>r. res = Inr r \<and> \<not> r_success r \<longrightarrow>
          r_error r \<noteq> None \<and> (\<exists>j. r_iteration r = Some j \<and> j < nat n)"
    proof (intro allI impI, elim conjE)
      fix r
      assume "res = Inr r" and ns: "\<not> r_success r"
      with l have "run_loop ag ?sys n 0 ?w1 = (Inr r, w')" by simp
      from run_loop_result_shape [OF this] ns
      show "r_error r \<noteq> None \<and> (\<exists>j. r_iteration r = Some j \<and> j < nat n)"
        by (auto simp: completed_def failed_def)
    qed
    have good: "nothing_throws ag goal n sp w \<longrightarrow>
        (\<exists>r. res = Inr r \<and> r_success r \<and> r_error r = None)"
    proof
      assume "nothing_throws ag goal n sp w"
      with nt have "passes_return ag ?sys n 0 ?w1" by simp
      from passes_return_completed [OF this] l
      show "\<exists>r. res = Inr r \<and> r_success r \<and> r_error r = None"
        by (auto simp: completed_def)
    qed
    have "trace w' = trace w @ (evs1 @ evs2)" using 1 2 by simp
    moreover have "count_list (evs1 @ evs2) ServiceCalled = count_list evs2 ServiceCalled"
      "filter is_LoopPass (evs1 @ evs2) = filter is_LoopPass evs2"
      using q1 by (simp_all add: count_list_append)
    ultimately show ?thesis
      using 2 r assms(2) shape good by (intro exI [of _ "evs1 @ evs2"]) auto
  qed
qed

lemma sample_run_nothing_throws:
  "nothing_throws sample_agent ''goal'' 3 None new_world"
  by (simp add: nothing_throws_def passes_return.simps eval_defs sample_agent_def)

theorem iteration_bound_witness:
  "nothing_throws sample_agent ''goal'' 3 None new_world \<and>
   count_list (trace (snd (run sample_agent ''goal'' 3 None new_world))) ServiceCalled = 3 \<and>
   filter is_LoopPass (trace (snd (run sample_agent ''goal'' 3 None new_world))) =
     [LoopPass 0, LoopPass 1, LoopPass 2] \<and>
   (case fst (run sample_agent ''goal'' 3 None new_world) of
      Inl e \<Rightarrow> False
    | Inr r \<Rightarrow> r_success r \<and> r_error r = None \<and> r_iterations r = Some 3)"
proof -
  have a: "\<forall>k req. \<exists>resp. client sample_agent k req = Inr resp \<and>
             stop_reason resp = ''tool_use''"
    by (simp add: sample_agent_def new_ComputerUseAgent_def sample_service_def two_tools_def)
  have up: "[0..<nat 3] = [0, 1, 2]"
    by (simp add: upt_rec)
  from iteration_bound [OF a, of 3 "''goal''" None new_world] sample_run_nothing_throws up
  show ?thesis
    by (auto simp: new_world_def)
qed

text \<open>
  C3 as stated fails: the service answers \<open>tool_use\<close> on every call and
  \<open>max_iterations\<close> is 2, but a wildcard on-tool-call hook throws in the first pass;
  \<open>run\<close> returns a failure record after one pass and one request.
\<close>

theorem iteration_bound_counterexample:
  "client guarded_agent = sample_service \<and>
   stop_reason two_tools = ''tool_use'' \<and>
   fst (run guarded_agent ''goal'' 2 None new_world) =
     Inr \<lparr>r_success = False, r_error = Some ''tool calls are disabled'',
          r_iteration = Some 0, r_iterations = None, r_state = [],
          r_actionHistory = None\<rparr> \<and>
   trace (snd (run guarded_agent ''goal'' 2 None new_world)) =
     [ScreenCaptured, LoopPass 0, ServiceCalled, HookCalled (OnToolCall ''*'')]"
  by (simp add: eval_defs guarded_agent_def sample_agent_def)

subsection \<open>Exceptions that leave run\<close>

text \<open>An exception that leaves \<open>run\<close> is one of the first screenshot or one of an
  iteration-start hook: everything else runs inside the \<open>try\<close> block, whose
  exceptions come back as a failure record.\<close>

lemma run_loop_raises_only_from_iteration_start:
  "run_loop ag sys n i w = (Inl e, w') \<Longrightarrow>
     \<exists>j w1. triggerOnIterationStart (hooks ag) j w1 = (Inl e, w')"
proof (induction "nat (n - int i)" arbitrary: i w)
  case 0
  then have "\<not> int i < n" by simp
  with "0.prems" show ?case by (simp add: run_loop_done)
next
  case (Suc k)
  then have lt: "int i < n" and k: "k = nat (n - int (Suc i))" by simp_all
  let ?w0 = "log_event (LoopPass i) (w\<lparr>ctx := (ctx w)\<lparr>iteration := i\<rparr>\<rparr>)"
  obtain r1 w1 where s: "triggerOnIterationStart (hooks ag) i ?w0 = (r1, w1)"
    by (cases "triggerOnIterationStart (hooks ag) i ?w0")
  show ?case
  proof (cases r1)
    case (Inl e1)
    with Suc.prems s have "e1 = e" "w1 = w'"
      by (auto simp: run_loop_step [OF lt])
    with s Inl show ?thesis by blast
  next
    case (Inr u)
    obtain r2 w2 where t: "try_block ag sys i w1 = (r2, w2)"
      by (cases "try_block ag sys i w1")
    from Suc.prems s Inr t have "r2 = Inr Continue \<and> run_loop ag sys n (Suc i) w2 = (Inl e, w')"
      by (auto simp: run_loop_step [OF lt] split: sum.splits loop_exit.splits)
    then show ?thesis using Suc.hyps(1) [OF k] by blast
  qed
qed

lemma run_raises_only_outside_try:
  assumes "run ag goal n sp w = (Inl e, w')"
  shows "takeScreenshot ag (w\<lparr>ctx := new_AgentContext, messages := []\<rparr>) = (Inl e, w') \<or>
     (\<exists>j w1. triggerOnIterationStart (hooks ag) j w1 = (Inl e, w'))"
proof -
  let ?w0 = "w\<lparr>ctx := new_AgentContext, messages := []\<rparr>"
  obtain r1 w1 where s: "takeScreenshot ag ?w0 = (r1, w1)"
    by (cases "takeScreenshot ag ?w0")
  show ?thesis
  proof (cases r1)
    case (Inl e1)
    with assms s show ?thesis by (simp add: run_def)
  next
    case (Inr img)
    with assms s show ?thesis
      by (auto simp: run_def dest: run_loop_raises_only_from_iteration_start)
  qed
qed

text \<open>
  C2. Not every failure comes back from \<open>run\<close> as a result record: an exception of
  an iteration-start hook, and an exception of the first screen capture, leave \<open>run\<close>
  as exceptions. Both calls are made outside the \<open>try\<close> block of \<open>run\<close>; by the
  lemma above they are the only ones whose exceptions leave \<open>run\<close>.
\<close>

theorem run_raises_past_entry_point:
  "fst (run impatient_agent ''goal'' 3 None new_world) = Inl (Exn ''not today'') \<and>
   fst (run blind_agent ''goal'' 3 None new_world) = Inl (Exn ''no display'')"
  by (simp add: eval_defs impatient_agent_def blind_agent_def sample_agent_def)

end
